theory Spec2Isabelle
  imports Complex_Main "HOL-Library.AList" "HOL-Library.Multiset"
begin

section \<open>Python values\<close>

text \<open>
  The scripts \<^verbatim>\<open>modify_als.py\<close> and \<^verbatim>\<open>parse_als.py\<close> work on text (XML attribute values,
  JSON strings) and on Python floats. Text is a \<^typ>\<open>string\<close> of ASCII characters;
  \<^verbatim>\<open>str.strip\<close>, \<^verbatim>\<open>str.upper\<close>, \<^verbatim>\<open>int()\<close> and \<^verbatim>\<open>float()\<close> are modelled on ASCII
  text. A Python float is an exact real number or one of the three special values, and
  comparisons with \<open>nan\<close> are false as in Python. Arithmetic is exact as long as the
  result lies in the range of a double; a result of magnitude \<open>2\<^sup>1\<^sup>0\<^sup>2\<^sup>4 - 2\<^sup>9\<^sup>7\<^sup>0\<close> or more
  (from where a double rounds to infinity) becomes an infinity, or Python's
  \<^verbatim>\<open>OverflowError\<close> where Python raises it. Rounding inside the range is not modelled:
  neither the last digits of a double, nor the underflow of a tiny result to zero, nor
  the sign of a zero.
\<close>

datatype pyfloat = Fin real | PInf | NInf | NaN

datatype exn = ValueError | TypeError | IndexError | AttributeError | OverflowError

definition float_limit :: real where
  "float_limit = 2 ^ 1024 - 2 ^ 970"

text \<open>A real result as the float it becomes.\<close>

definition to_range :: "real \<Rightarrow> pyfloat" where
  "to_range r =
     (if float_limit \<le> r then PInf else if r \<le> - float_limit then NInf else Fin r)"

text \<open>A value loaded from JSON, or handed to \<^verbatim>\<open>float()\<close>: \<^verbatim>\<open>None\<close>, an int, a float or a
  string.\<close>

datatype pyval = PNone | PInt int | PFloat pyfloat | PStr string

fun f_le :: "pyfloat \<Rightarrow> pyfloat \<Rightarrow> bool" where
  "f_le NaN y = False"
| "f_le x NaN = False"
| "f_le NInf y = True"
| "f_le x PInf = True"
| "f_le (Fin a) (Fin b) = (a \<le> b)"
| "f_le x y = False"

fun f_lt :: "pyfloat \<Rightarrow> pyfloat \<Rightarrow> bool" where
  "f_lt NaN y = False"
| "f_lt x NaN = False"
| "f_lt PInf y = False"
| "f_lt x NInf = False"
| "f_lt (Fin a) (Fin b) = (a < b)"
| "f_lt x y = True"

fun f_neg :: "pyfloat \<Rightarrow> pyfloat" where
  "f_neg (Fin a) = Fin (- a)"
| "f_neg PInf = NInf"
| "f_neg NInf = PInf"
| "f_neg NaN = NaN"

fun f_abs :: "pyfloat \<Rightarrow> pyfloat" where
  "f_abs (Fin a) = Fin \<bar>a\<bar>"
| "f_abs PInf = PInf"
| "f_abs NInf = PInf"
| "f_abs NaN = NaN"

text \<open>Multiplication and division by a positive finite constant \<open>c\<close>. \<open>f_scale\<close> is for
  \<^verbatim>\<open>x / 20.0\<close>, \<^verbatim>\<open>x / 50.0\<close> and \<^verbatim>\<open>20 * math.log10(v)\<close>, whose results cannot leave the range
  of a double; \<open>f_mul\<close> is for \<^verbatim>\<open>abs(v) * 50\<close>, which can.\<close>

fun f_scale :: "real \<Rightarrow> pyfloat \<Rightarrow> pyfloat" where
  "f_scale c (Fin a) = Fin (c * a)"
| "f_scale c x = x"

fun f_mul :: "real \<Rightarrow> pyfloat \<Rightarrow> pyfloat" where
  "f_mul c (Fin a) = to_range (c * a)"
| "f_mul c x = x"

text \<open>\<^verbatim>\<open>10 ** y\<close> for a float \<open>y\<close>: a finite \<open>y\<close> whose power is beyond the range of a double
  is Python's \<^verbatim>\<open>OverflowError\<close> (from about \<open>y = 308.25\<close> on); an infinite \<open>y\<close> and \<open>nan\<close>
  raise nothing.\<close>

fun pow10 :: "pyfloat \<Rightarrow> exn + pyfloat" where
  "pow10 (Fin y) = (if float_limit \<le> 10 powr y then Inl OverflowError else Inr (Fin (10 powr y)))"
| "pow10 PInf = Inr PInf"
| "pow10 NInf = Inr (Fin 0)"
| "pow10 NaN = Inr NaN"

text \<open>\<^verbatim>\<open>math.log10(v)\<close>. Every call in the scripts is guarded by \<^verbatim>\<open>v > 0.0003163\<close>
  (or reached with \<open>nan\<close>), so the \<^verbatim>\<open>ValueError\<close> that Python raises for \<open>v \<le> 0\<close> is
  never reached; the function is only applied there.\<close>

fun log10 :: "pyfloat \<Rightarrow> pyfloat" where
  "log10 (Fin v) = Fin (log 10 v)"
| "log10 PInf = PInf"
| "log10 x = NaN"

text \<open>Powers and logarithms of reals are not computed; the two equations are kept out of
  the evaluation of examples, which leaves such a value as it stands.\<close>

declare pow10.simps(1) [code del] log10.simps(1) [code del]

subsection \<open>Text\<close>

text \<open>The ASCII characters that \<^verbatim>\<open>str.strip\<close> removes, and the fewer ones that \<^verbatim>\<open>int()\<close>
  and \<^verbatim>\<open>float()\<close> skip around a number (the separators \<open>0x1C\<close> to \<open>0x1F\<close> are whitespace
  for the first only).\<close>

definition is_space :: "char \<Rightarrow> bool" where
  "is_space c = (let n = (of_char c :: nat) in (9 \<le> n \<and> n \<le> 13) \<or> (28 \<le> n \<and> n \<le> 32))"

definition is_blank :: "char \<Rightarrow> bool" where
  "is_blank c = (let n = (of_char c :: nat) in (9 \<le> n \<and> n \<le> 13) \<or> n = 32)"

definition is_digit :: "char \<Rightarrow> bool" where
  "is_digit c = (let n = (of_char c :: nat) in 48 \<le> n \<and> n \<le> 57)"

definition digit_val :: "char \<Rightarrow> nat" where
  "digit_val c = of_char c - 48"

definition digit_char :: "nat \<Rightarrow> char" where
  "digit_char d = char_of (48 + d)"

definition to_upper :: "char \<Rightarrow> char" where
  "to_upper c = (let n = (of_char c :: nat) in if 97 \<le> n \<and> n \<le> 122 then char_of (n - 32) else c)"

definition to_lower :: "char \<Rightarrow> char" where
  "to_lower c = (let n = (of_char c :: nat) in if 65 \<le> n \<and> n \<le> 90 then char_of (n + 32) else c)"

definition upper :: "string \<Rightarrow> string" where
  "upper s = map to_upper s"

definition lower :: "string \<Rightarrow> string" where
  "lower s = map to_lower s"

text \<open>\<^verbatim>\<open>s.strip()\<close>: leading and trailing whitespace removed.\<close>

definition strip :: "string \<Rightarrow> string" where
  "strip s = rev (dropWhile is_space (rev (dropWhile is_space s)))"

definition trim_blank :: "string \<Rightarrow> string" where
  "trim_blank s = rev (dropWhile is_blank (rev (dropWhile is_blank s)))"

definition startswith :: "string \<Rightarrow> string \<Rightarrow> bool" where
  "startswith s p = (take (length p) s = p)"

definition endswith :: "string \<Rightarrow> string \<Rightarrow> bool" where
  "endswith s p = (length p \<le> length s \<and> drop (length s - length p) s = p)"

text \<open>\<^verbatim>\<open>sub in s\<close> on strings.\<close>

fun contains :: "string \<Rightarrow> string \<Rightarrow> bool" where
  "contains [] sub = (sub = [])"
| "contains (c # cs) sub = (startswith (c # cs) sub \<or> contains cs sub)"

text \<open>\<^verbatim>\<open>s.split("/")\<close>.\<close>

fun split_slash :: "string \<Rightarrow> string list" where
  "split_slash [] = [[]]"
| "split_slash (c # cs) =
     (if c = CHR ''/'' then [] # split_slash cs
      else (case split_slash cs of [] \<Rightarrow> [[c]] | p # ps \<Rightarrow> (c # p) # ps))"

text \<open>\<^verbatim>\<open>", ".join(xs)\<close> and the like.\<close>

fun join :: "string \<Rightarrow> string list \<Rightarrow> string" where
  "join sep [] = []"
| "join sep [x] = x"
| "join sep (x # y # ys) = x @ sep @ join sep (y # ys)"

text \<open>\<^verbatim>\<open>str(n)\<close> for an int: decimal digits, a minus sign when negative.\<close>

fun str_nat :: "nat \<Rightarrow> string" where
  "str_nat n = (if n < 10 then [digit_char n] else str_nat (n div 10) @ [digit_char (n mod 10)])"

declare str_nat.simps [simp del]

definition str_int :: "int \<Rightarrow> string" where
  "str_int i = (if i < 0 then CHR ''-'' # str_nat (nat (- i)) else str_nat (nat i))"

text \<open>A group of digits as \<^verbatim>\<open>int()\<close> and \<^verbatim>\<open>float()\<close> accept it: digits, with single
  underscores allowed between two digits.\<close>

fun digits_us :: "string \<Rightarrow> bool" where
  "digits_us [] = False"
| "digits_us [c] = is_digit c"
| "digits_us (c # d # cs) =
     (is_digit c \<and> (if d = CHR ''_'' then digits_us cs else digits_us (d # cs)))"

definition dec_val :: "string \<Rightarrow> nat" where
  "dec_val s = foldl (\<lambda>a c. 10 * a + digit_val c) 0 (filter is_digit s)"

text \<open>An optional sign in front: whether it is a minus, and the rest.\<close>

fun split_sign :: "string \<Rightarrow> bool \<times> string" where
  "split_sign [] = (False, [])"
| "split_sign (c # cs) =
     (if c = CHR ''-'' then (True, cs) else if c = CHR ''+'' then (False, cs) else (False, c # cs))"

text \<open>\<^verbatim>\<open>int(s)\<close> on text; \<open>None\<close> is Python's \<^verbatim>\<open>ValueError\<close>.\<close>

definition py_int :: "string \<Rightarrow> int option" where
  "py_int s =
     (let (neg, u) = split_sign (trim_blank s)
      in if digits_us u then Some (if neg then - int (dec_val u) else int (dec_val u)) else None)"

text \<open>\<^verbatim>\<open>float(s)\<close> on text; \<open>None\<close> is Python's \<^verbatim>\<open>ValueError\<close>. The whitespace around is
  skipped; then an optional sign followed by \<^verbatim>\<open>inf\<close>, \<^verbatim>\<open>infinity\<close> or \<^verbatim>\<open>nan\<close> in any case,
  or by a decimal number: digits with an optional point (at least one digit on one side
  of it) and an optional exponent. A number beyond the range of a double reads as an
  infinity.\<close>

definition py_float_exp :: "string \<Rightarrow> int option" where
  "py_float_exp r =
     (case r of [] \<Rightarrow> Some 0
      | _ # ex \<Rightarrow>
         (let (neg, d) = split_sign ex
          in if digits_us d then Some (if neg then - int (dec_val d) else int (dec_val d))
             else None))"

definition py_float_mant :: "string \<Rightarrow> real option" where
  "py_float_mant m =
     (let ip = takeWhile (\<lambda>c. c \<noteq> CHR ''.'') m;
          fp = (case dropWhile (\<lambda>c. c \<noteq> CHR ''.'') m of [] \<Rightarrow> [] | _ # f \<Rightarrow> f)
      in if (ip = [] \<or> digits_us ip) \<and> (fp = [] \<or> digits_us fp) \<and> (ip \<noteq> [] \<or> fp \<noteq> [])
         then Some (real (dec_val ip) + real (dec_val fp) / 10 ^ length (filter is_digit fp))
         else None)"

definition scale10 :: "int \<Rightarrow> real \<Rightarrow> real" where
  "scale10 e x = (if 0 \<le> e then x * 10 ^ nat e else x / 10 ^ nat (- e))"

definition py_float :: "string \<Rightarrow> pyfloat option" where
  "py_float s =
     (let (neg, u) = split_sign (trim_blank s);
          l = lower u
      in if l = ''inf'' \<or> l = ''infinity'' then Some (if neg then NInf else PInf)
         else if l = ''nan'' then Some NaN
         else
           (let isE = (\<lambda>c. c = CHR ''e'' \<or> c = CHR ''E'')
            in case (py_float_mant (takeWhile (\<lambda>c. \<not> isE c) u),
                     py_float_exp (dropWhile (\<lambda>c. \<not> isE c) u)) of
                 (Some m, Some e) \<Rightarrow> Some (to_range (scale10 e (if neg then - m else m)))
               | _ \<Rightarrow> None))"

text \<open>\<^verbatim>\<open>float(v)\<close> on a value: \<^verbatim>\<open>TypeError\<close> for \<^verbatim>\<open>None\<close>, \<^verbatim>\<open>ValueError\<close> for text
  that is not a number, \<^verbatim>\<open>OverflowError\<close> for an int beyond the range of a double.\<close>

fun to_float :: "pyval \<Rightarrow> exn + pyfloat" where
  "to_float PNone = Inl TypeError"
| "to_float (PInt k) =
     (if float_limit \<le> \<bar>real_of_int k\<bar> then Inl OverflowError else Inr (Fin (real_of_int k)))"
| "to_float (PFloat x) = Inr x"
| "to_float (PStr s) = (case py_float s of None \<Rightarrow> Inl ValueError | Some x \<Rightarrow> Inr x)"

section \<open>Unit codec\<close>

text \<open>\<^verbatim>\<open>db_to_linear\<close> of \<^verbatim>\<open>modify_als.py\<close>. The comparison \<^verbatim>\<open>db <= -70\<close> of a string with a
  number is Python's \<^verbatim>\<open>TypeError\<close>; the division \<^verbatim>\<open>db / 20.0\<close> turns an int into a float
  first.\<close>

definition silence_floor :: real where
  "silence_floor = 3162277571 / 10 ^ 13"

fun db_to_linear :: "pyval \<Rightarrow> exn + pyfloat" where
  "db_to_linear PNone = Inr (Fin silence_floor)"
| "db_to_linear (PStr s) = Inl TypeError"
| "db_to_linear (PInt k) =
     (if k \<le> - 70 then Inr (Fin silence_floor)
      else (case to_float (PInt k) of
              Inl e \<Rightarrow> Inl e
            | Inr db \<Rightarrow> pow10 (f_scale (1 / 20) db)))"
| "db_to_linear (PFloat db) =
     (if f_le db (Fin (- 70)) then Inr (Fin silence_floor)
      else pow10 (f_scale (1 / 20) db))"

text \<open>\<^verbatim>\<open>vol_to_db\<close> of \<^verbatim>\<open>parse_als.py\<close>; Python's \<^verbatim>\<open>None\<close> result is \<open>None\<close>. The function
  catches \<^verbatim>\<open>TypeError\<close> and \<^verbatim>\<open>ValueError\<close> of \<^verbatim>\<open>float(value)\<close>, no other exception.\<close>

definition cutoff :: real where
  "cutoff = 3163 / 10 ^ 7"

definition vol_to_db :: "pyval \<Rightarrow> exn + pyfloat option" where
  "vol_to_db v =
     (case to_float v of
        Inl e \<Rightarrow> if e = TypeError \<or> e = ValueError then Inr None else Inl e
      | Inr x \<Rightarrow>
          if f_le x (Fin cutoff) then Inr (Some NInf) else Inr (Some (f_scale 20 (log10 x))))"

text \<open>\<^verbatim>\<open>pan_str_to_value\<close> of \<^verbatim>\<open>modify_als.py\<close>. Its argument goes through \<^verbatim>\<open>str()\<close>
  first; \<open>sf\<close> is the text Python's \<^verbatim>\<open>str\<close> gives a float (its shortest decimal that
  reads back), which exact reals cannot compute: every function that writes a float as
  text takes it as a parameter, and every theorem holds for each choice of it.\<close>

fun py_str :: "(pyfloat \<Rightarrow> string) \<Rightarrow> pyval \<Rightarrow> string" where
  "py_str sf PNone = ''None''"
| "py_str sf (PInt k) = str_int k"
| "py_str sf (PFloat x) = sf x"
| "py_str sf (PStr s) = s"

definition pan_str_to_value :: "(pyfloat \<Rightarrow> string) \<Rightarrow> pyval \<Rightarrow> exn + pyfloat" where
  "pan_str_to_value sf v =
     (let pan_str = strip (py_str sf v)
      in if upper pan_str = ''C'' \<or> pan_str = ''0'' then Inr (Fin 0)
         else if endswith (upper pan_str) ''L'' then
           (case py_float (butlast pan_str) of
              None \<Rightarrow> Inl ValueError
            | Some p \<Rightarrow> Inr (f_neg (f_scale (1 / 50) p)))
         else if endswith (upper pan_str) ''R'' then
           (case py_float (butlast pan_str) of
              None \<Rightarrow> Inl ValueError
            | Some p \<Rightarrow> Inr (f_scale (1 / 50) p))
         else
           (case py_float pan_str of None \<Rightarrow> Inl ValueError | Some x \<Rightarrow> Inr x))"

text \<open>Python's fixed-point formats \<^verbatim>\<open>{x:.0f}\<close>, \<^verbatim>\<open>{x:.1f}\<close> and \<^verbatim>\<open>{x:+.1f}\<close>: the value
  rounded to \<open>d\<close> decimals, ties to even; \<open>showpos\<close> asks for the sign of a value that is not
  negative.\<close>

definition round_half_even :: "real \<Rightarrow> nat" where
  "round_half_even r =
     (let f = nat \<lfloor>r\<rfloor>; t = r - real_of_int \<lfloor>r\<rfloor>
      in if t < 1 / 2 then f else if 1 / 2 < t then Suc f else if even f then f else Suc f)"

fun fmt_f :: "bool \<Rightarrow> nat \<Rightarrow> pyfloat \<Rightarrow> string" where
  "fmt_f showpos d (Fin r) =
     (let n = round_half_even (\<bar>r\<bar> * 10 ^ d);
          frac = str_nat (n mod 10 ^ d)
      in (if r < 0 then ''-'' else if showpos then ''+'' else []) @ str_nat (n div 10 ^ d) @
         (if d = 0 then [] else CHR ''.'' # replicate (d - length frac) CHR ''0'' @ frac))"
| "fmt_f showpos d PInf = (if showpos then ''+inf'' else ''inf'')"
| "fmt_f showpos d NInf = ''-inf''"
| "fmt_f showpos d NaN = (if showpos then ''+nan'' else ''nan'')"

text \<open>The same formats applied to a JSON value: \<^verbatim>\<open>None\<close> and a string have no such
  format, and an int is turned into a float first.\<close>

fun fmt_val :: "bool \<Rightarrow> nat \<Rightarrow> pyval \<Rightarrow> exn + string" where
  "fmt_val showpos d PNone = Inl TypeError"
| "fmt_val showpos d (PStr s) = Inl ValueError"
| "fmt_val showpos d (PInt k) =
     (case to_float (PInt k) of Inl e \<Rightarrow> Inl e | Inr x \<Rightarrow> Inr (fmt_f showpos d x))"
| "fmt_val showpos d (PFloat x) = Inr (fmt_f showpos d x)"

text \<open>\<^verbatim>\<open>pan_to_str\<close> of \<^verbatim>\<open>parse_als.py\<close>; it catches the same two exceptions.\<close>

definition pan_to_str :: "pyval \<Rightarrow> exn + string" where
  "pan_to_str v =
     (case to_float v of
        Inl e \<Rightarrow> if e = TypeError \<or> e = ValueError then Inr ''N/A'' else Inl e
      | Inr x \<Rightarrow>
          if f_lt (f_abs x) (Fin (1 / 100)) then Inr ''C''
          else Inr (fmt_f False 0 (f_mul 50 (f_abs x)) @
                    (if f_lt x (Fin 0) then ''L'' else ''R'')))"

section \<open>Document model\<close>

text \<open>
  An element of the XML tree as \<^verbatim>\<open>xml.etree.ElementTree\<close> holds it: a tag, the attributes
  in their order, the children in their order. The scripts never read the text between
  the tags. Python hands elements around by reference and changes them in place; here a
  reference into a tree is a position (the child indices from the root of that tree
  down), a lookup returns the position together with the element found, and a change
  rebuilds the tree at the position.
\<close>

datatype elem = Elem (tag: string) (attrib: "(string \<times> string) list") (children: "elem list")

type_synonym pos = "nat list"

text \<open>\<^verbatim>\<open>el.get(k)\<close>, \<^verbatim>\<open>el.get(k, default)\<close>, \<^verbatim>\<open>k in el.attrib\<close> and \<^verbatim>\<open>el.set(k, v)\<close>.\<close>

definition el_get :: "elem \<Rightarrow> string \<Rightarrow> string option" where
  "el_get e k = map_of (attrib e) k"

definition el_get_or :: "elem \<Rightarrow> string \<Rightarrow> string \<Rightarrow> string" where
  "el_get_or e k dflt = (case el_get e k of None \<Rightarrow> dflt | Some v \<Rightarrow> v)"

definition has_attr :: "elem \<Rightarrow> string \<Rightarrow> bool" where
  "has_attr e k = (el_get e k \<noteq> None)"

definition el_set :: "string \<Rightarrow> string \<Rightarrow> elem \<Rightarrow> elem" where
  "el_set k v e = Elem (tag e) (AList.update k v (attrib e)) (children e)"

fun subtree :: "elem \<Rightarrow> pos \<Rightarrow> elem option" where
  "subtree e [] = Some e"
| "subtree e (i # p) = (if i < length (children e) then subtree (children e ! i) p else None)"

fun update_at :: "pos \<Rightarrow> (elem \<Rightarrow> elem) \<Rightarrow> elem \<Rightarrow> elem" where
  "update_at [] f e = f e"
| "update_at (i # p) f e =
     (if i < length (children e)
      then Elem (tag e) (attrib e) ((children e)[i := update_at p f (children e ! i)])
      else e)"

text \<open>\<^verbatim>\<open>el.append(new)\<close> and \<^verbatim>\<open>el.insert(index, new)\<close>; the index of \<^verbatim>\<open>insert\<close> is a Python
  list index: a negative one counts from the end, and one out of range is clipped.\<close>

definition insert_index :: "nat \<Rightarrow> int \<Rightarrow> nat" where
  "insert_index n i = (if i < 0 then nat (int n + i) else min (nat i) n)"

definition el_insert_at :: "nat \<Rightarrow> elem \<Rightarrow> elem \<Rightarrow> elem" where
  "el_insert_at k new e = Elem (tag e) (attrib e) (take k (children e) @ new # drop k (children e))"

text \<open>\<^verbatim>\<open>xs[i]\<close> on a Python list.\<close>

definition py_nth :: "'a list \<Rightarrow> int \<Rightarrow> exn + 'a" where
  "py_nth xs i =
     (if 0 \<le> i \<and> i < int (length xs) then Inr (xs ! nat i)
      else if - int (length xs) \<le> i \<and> i < 0 then Inr (xs ! nat (int (length xs) + i))
      else Inl IndexError)"

text \<open>\<^verbatim>\<open>el.iter()\<close>: the element and all its descendants in document order, each with its
  position.\<close>

fun iter_el :: "elem \<Rightarrow> (pos \<times> elem) list"
  and iter_list :: "elem list \<Rightarrow> nat \<Rightarrow> (pos \<times> elem) list" where
  "iter_el (Elem t a cs) = ([], Elem t a cs) # iter_list cs 0"
| "iter_list [] i = []"
| "iter_list (c # cs) i = map (\<lambda>(p, x). (i # p, x)) (iter_el c) @ iter_list cs (Suc i)"

text \<open>
  \<^verbatim>\<open>el.find(path)\<close> for a path of plain tag names \<^verbatim>\<open>A/B/C\<close>: the first element, in document
  order, reached from \<open>el\<close> through a child tagged \<open>A\<close>, a child of it tagged \<open>B\<close>, and so
  on. The path is given as the list of its steps; the wildcard, parent and predicate
  steps of ElementTree are not modelled.
\<close>

fun find_path :: "elem \<Rightarrow> string list \<Rightarrow> (pos \<times> elem) option"
  and find_children :: "elem list \<Rightarrow> nat \<Rightarrow> string \<Rightarrow> string list \<Rightarrow> (pos \<times> elem) option" where
  "find_path e [] = Some ([], e)"
| "find_path (Elem t a cs) (s # ss) = find_children cs 0 s ss"
| "find_children [] i s ss = None"
| "find_children (c # cs) i s ss =
     (if tag c = s
      then (case find_path c ss of
              Some (p, x) \<Rightarrow> Some (i # p, x)
            | None \<Rightarrow> find_children cs (Suc i) s ss)
      else find_children cs (Suc i) s ss)"

fun first_some :: "('a \<Rightarrow> 'b option) \<Rightarrow> 'a list \<Rightarrow> 'b option" where
  "first_some f [] = None"
| "first_some f (x # xs) = (case f x of Some y \<Rightarrow> Some y | None \<Rightarrow> first_some f xs)"

text \<open>\<^verbatim>\<open>el.find(".//A/B/C")\<close>: the descendants of \<open>el\<close> tagged \<open>A\<close> in document order (\<open>el\<close>
  itself is not one of them), and the first element that the rest of the path finds from
  one of them.\<close>

definition find_desc :: "elem \<Rightarrow> string \<Rightarrow> string list \<Rightarrow> (pos \<times> elem) option" where
  "find_desc e s ss =
     first_some
       (\<lambda>(p, a). if tag a = s
                 then (case find_path a ss of
                         Some (q, x) \<Rightarrow> Some (p @ q, x)
                       | None \<Rightarrow> None)
                 else None)
       (tl (iter_el e))"

section \<open>Project reader: parameter values\<close>


section \<open>Mutation engine\<close>

subsection \<open>Helpers of \<^verbatim>\<open>modify_als.py\<close>\<close>

definition find_tracks_by_name :: "elem list \<Rightarrow> string \<Rightarrow> string option \<Rightarrow> (nat \<times> elem) list" where
  "find_tracks_by_name tracks name ttype =
     filter
       (\<lambda>(i, track).
          case find_desc track ''Name'' [''EffectiveName''] of
            None \<Rightarrow> False
          | Some (p, name_el) \<Rightarrow>
              el_get name_el ''Value'' = Some name \<and> (ttype = None \<or> ttype = Some (tag track)))
       (enumerate 0 tracks)"

definition db_linear_params :: "(string \<times> string) list" where
  "db_linear_params =
     [(''Compressor2'', ''Threshold''), (''Compressor2'', ''OutputGain''),
      (''Gate'', ''Threshold''), (''Gate'', ''Return'')]"

definition find_max_id :: "elem \<Rightarrow> int" where
  "find_max_id r =
     foldl
       (\<lambda>max_id (p, el).
          case el_get el ''Id'' of
            None \<Rightarrow> max_id
          | Some id_val \<Rightarrow> (case py_int id_val of None \<Rightarrow> max_id | Some n \<Rightarrow> max max_id n))
       0 (iter_el r)"

definition find_donor_device :: "elem \<Rightarrow> string \<Rightarrow> (pos \<times> elem) option" where
  "find_donor_device r dtag = List.find (\<lambda>(p, el). tag el = dtag) (iter_el r)"

text \<open>\<^verbatim>\<open>remap_ids\<close>: the renumbered element and the next free identifier.\<close>

fun remap_ids :: "elem \<Rightarrow> int \<Rightarrow> elem \<times> int"
  and remap_ids_list :: "elem list \<Rightarrow> int \<Rightarrow> elem list \<times> int" where
  "remap_ids (Elem t a cs) next_id =
     (if has_attr (Elem t a cs) ''Id''
      then (case remap_ids_list cs (next_id + 1) of
              (cs', n) \<Rightarrow> (Elem t (AList.update ''Id'' (str_int next_id) a) cs', n))
      else (case remap_ids_list cs next_id of (cs', n) \<Rightarrow> (Elem t a cs', n)))"
| "remap_ids_list [] next_id = ([], next_id)"
| "remap_ids_list (c # cs) next_id =
     (case remap_ids c next_id of
        (c', n) \<Rightarrow> (case remap_ids_list cs n of (cs', n') \<Rightarrow> (c' # cs', n')))"

text \<open>The step shared by both reset routines and by the forcing of the enabled flag:
  \<^verbatim>\<open>el = device.find(path); if el is not None: el.set("Value", v)\<close>.\<close>

definition set_if_found :: "string list \<Rightarrow> string \<Rightarrow> elem \<Rightarrow> elem" where
  "set_if_found path v device =
     (case find_path device path of
        None \<Rightarrow> device
      | Some (p, el) \<Rightarrow> update_at p (el_set ''Value'' v) device)"

definition reset_band :: "nat \<Rightarrow> string \<Rightarrow> elem \<Rightarrow> elem" where
  "reset_band i param_set device =
     (let prefix = [''Bands.'' @ str_nat i, param_set]
      in set_if_found (prefix @ [''Q'', ''Manual'']) ''0.7071067''
           (set_if_found (prefix @ [''Gain'', ''Manual'']) ''0''
              (set_if_found (prefix @ [''IsOn'', ''Manual'']) ''false'' device)))"

definition reset_eq8_defaults :: "elem \<Rightarrow> elem" where
  "reset_eq8_defaults device =
     fold (\<lambda>i. fold (reset_band i) [''ParameterA'', ''ParameterB'']) [0..<8] device"

definition compressor_defaults :: "(pyfloat \<Rightarrow> string) \<Rightarrow> (string \<times> string) list" where
  "compressor_defaults sf =
     [(''Threshold'', (case db_to_linear (PInt 0) of Inr x \<Rightarrow> sf x | Inl e \<Rightarrow> [])),
      (''Ratio'', ''2''), (''Attack'', ''10''), (''Release'', ''100''), (''DryWet'', ''1''),
      (''GainCompensation'', ''true'')]"

definition reset_compressor_defaults :: "(pyfloat \<Rightarrow> string) \<Rightarrow> elem \<Rightarrow> elem" where
  "reset_compressor_defaults sf device =
     fold (\<lambda>(param, v). set_if_found [param, ''Manual''] v) (compressor_defaults sf) device"

definition device_resetters :: "(pyfloat \<Rightarrow> string) \<Rightarrow> string \<Rightarrow> (elem \<Rightarrow> elem) option" where
  "device_resetters sf dtag =
     (if dtag = ''Eq8'' then Some reset_eq8_defaults
      else if dtag = ''Compressor2'' then Some (reset_compressor_defaults sf)
      else None)"

text \<open>\<^verbatim>\<open>find_device\<close>: the position is relative to the track.\<close>

definition find_device :: "elem \<Rightarrow> string \<Rightarrow> int \<Rightarrow> exn + (pos \<times> elem) option" where
  "find_device track_el dtag dindex =
     (case find_path track_el [''DeviceChain'', ''DeviceChain'', ''Devices''] of
        None \<Rightarrow> Inr None
      | Some (p, devices_el) \<Rightarrow>
          (let matches = filter (\<lambda>(i, dv). tag dv = dtag) (enumerate 0 (children devices_el))
           in if dindex < int (length matches)
              then (case py_nth matches dindex of
                      Inl e \<Rightarrow> Inl e
                    | Inr (i, dv) \<Rightarrow> Inr (Some (p @ [i], dv)))
              else Inr None))"

text \<open>The loop \<^verbatim>\<open>for part in parts[:-1]: current = current.find(part)\<close> of
  \<^verbatim>\<open>set_param_value\<close>: one step at a time, always into the first child with the tag.\<close>

fun walk_parts :: "elem \<Rightarrow> string list \<Rightarrow> (pos \<times> elem) option" where
  "walk_parts e [] = Some ([], e)"
| "walk_parts e (s # ss) =
     (case find_path e [s] of
        None \<Rightarrow> None
      | Some (p, c) \<Rightarrow>
          (case walk_parts c ss of None \<Rightarrow> None | Some (q, x) \<Rightarrow> Some (p @ q, x)))"

text \<open>\<^verbatim>\<open>set_param_value\<close>: the element after the write, and the success flag.\<close>

definition set_param_value :: "(pyfloat \<Rightarrow> string) \<Rightarrow> elem \<Rightarrow> string \<Rightarrow> pyval \<Rightarrow> elem \<times> bool" where
  "set_param_value sf element param_path v =
     (let parts = split_slash param_path
      in case walk_parts element (butlast parts) of
           None \<Rightarrow> (element, False)
         | Some (p, current) \<Rightarrow>
             (case find_path current [last parts] of
                None \<Rightarrow> (element, False)
              | Some (q, target_el) \<Rightarrow>
                  (case find_path target_el [''Manual''] of
                     Some (m, manual) \<Rightarrow>
                       (update_at (p @ q @ m) (el_set ''Value'' (py_str sf v)) element, True)
                   | None \<Rightarrow>
                       if has_attr target_el ''Value''
                       then (update_at (p @ q) (el_set ''Value'' (py_str sf v)) element, True)
                       else (element, False))))"

subsection \<open>Change requests and the document in memory\<close>

text \<open>
  One entry of the \<^verbatim>\<open>changes\<close> list, with the fields \<^verbatim>\<open>apply_change\<close> reads through
  \<^verbatim>\<open>change.get\<close>; a field the JSON leaves out holds the default of that call (the field
  \<open>val\<close> is the JSON key \<^verbatim>\<open>value\<close>, and \<open>params\<close> lists the entries of the JSON object in
  their order).
\<close>

record change =
  track_name :: string
  track_type :: "string option"
  track_index :: int
  target :: string
  val :: pyval
  send_index :: int
  device_tag :: string
  device_index :: int
  param_name :: string
  param_value :: pyval
  device_name :: "string option"
  position :: int
  params :: "(string \<times> pyval) list"

text \<open>The two references \<^verbatim>\<open>main\<close> holds during a run: the root, and the \<^verbatim>\<open>Tracks\<close> element
  inside it (as its position in the root).\<close>

record doc =
  root :: elem
  tracks_el :: pos

definition load_doc :: "elem \<Rightarrow> doc option" where
  "load_doc r =
     (case find_desc r ''LiveSet'' [''Tracks''] of
        None \<Rightarrow> None
      | Some (p, t) \<Rightarrow> Some \<lparr>root = r, tracks_el = p\<rparr>)"

text \<open>\<^verbatim>\<open>for t in tracks_el\<close>: the children of the \<^verbatim>\<open>Tracks\<close> element.\<close>

definition track_list :: "doc \<Rightarrow> elem list" where
  "track_list d = (case subtree (root d) (tracks_el d) of None \<Rightarrow> [] | Some t \<Rightarrow> children t)"

text \<open>Where an element lies after a new child went into the element at \<open>dp\<close> at index
  \<open>k\<close>: the later children of that element, and all below them, move one place.\<close>

fun shift_pos :: "pos \<Rightarrow> nat \<Rightarrow> pos \<Rightarrow> pos" where
  "shift_pos [] k [] = []"
| "shift_pos [] k (i # p) = (if k \<le> i then Suc i # p else i # p)"
| "shift_pos (j # dp) k [] = []"
| "shift_pos (j # dp) k (i # p) = (if j = i then i # shift_pos dp k p else i # p)"

text \<open>What a step of \<^verbatim>\<open>apply_change\<close> comes to: an exception that leaves the function, the
  early \<^verbatim>\<open>return [f"ERROR: ..."]\<close> with its message, or a result to go on with.\<close>

datatype 'a res = Raised exn | Failed string | Done 'a

definition quote :: string where
  "quote = [CHR 0x27]"

definition arrow :: string where
  "arrow = [CHR 0xE2, CHR 0x86, CHR 0x92]"

subsection \<open>\<^verbatim>\<open>apply_change\<close>: finding the target track\<close>

definition resolve_track :: "doc \<Rightarrow> change \<Rightarrow> (pos \<times> elem) res" where
  "resolve_track d c =
     (if upper (track_name c) = ''MASTER'' \<or> upper (track_name c) = ''MAIN'' then
        (case find_desc (root d) ''LiveSet'' [''MainTrack''] of
           Some t \<Rightarrow> Done t
         | None \<Rightarrow>
             (case find_desc (root d) ''LiveSet'' [''MasterTrack''] of
                Some t \<Rightarrow> Done t
              | None \<Rightarrow> Failed ''ERROR: Could not find Main/Master track''))
      else if startswith (upper (track_name c)) ''RETURN:'' then
        (let return_name = drop 7 (track_name c)
         in case List.find
                   (\<lambda>(i, t). tag t = ''ReturnTrack'' \<and>
                      (case find_desc t ''Name'' [''EffectiveName''] of
                         None \<Rightarrow> False
                       | Some (p, name_el) \<Rightarrow> contains (el_get_or name_el ''Value'' []) return_name))
                   (enumerate 0 (track_list d)) of
              Some (i, t) \<Rightarrow> Done (tracks_el d @ [i], t)
            | None \<Rightarrow> Failed (''ERROR: Could not find return track '' @ quote @ return_name @ quote))
      else
        (let matches = find_tracks_by_name (track_list d) (track_name c) (track_type c)
         in if matches = [] then
              Failed (''ERROR: Could not find track '' @ quote @ track_name c @ quote)
            else if int (length matches) \<le> track_index c then
              Failed (''ERROR: Track '' @ quote @ track_name c @ quote @ '' index '' @
                      str_int (track_index c) @ '' out of range (found '' @
                      str_nat (length matches) @ '')'')
            else
              (case py_nth matches (track_index c) of
                 Inl e \<Rightarrow> Raised e
               | Inr (i, t) \<Rightarrow> Done (tracks_el d @ [i], t))))"

subsection \<open>\<^verbatim>\<open>apply_change\<close>: the branches\<close>

text \<open>
  Each branch of the \<^verbatim>\<open>if target == ...\<close> chain is a function of its own here. It gets the
  track found (position \<open>tp\<close> in the root, element \<open>track_el\<close>) and returns the exception
  raised, or the document after the branch with the list the function returns.
  \<^verbatim>\<open>mixer.find\<close> on a track without a mixer is Python's \<^verbatim>\<open>AttributeError\<close> (\<^verbatim>\<open>mixer\<close> is
  \<^verbatim>\<open>None\<close>).
\<close>

definition old_db_of :: "pyfloat \<Rightarrow> pyfloat" where
  "old_db_of old_val = (if f_lt (Fin cutoff) old_val then f_scale 20 (log10 old_val) else NInf)"

definition find_mixer :: "elem \<Rightarrow> (pos \<times> elem) option" where
  "find_mixer track_el = find_desc track_el ''DeviceChain'' [''Mixer'']"

text \<open>The branches \<^verbatim>\<open>volume\<close> (\<open>label\<close> empty) and \<^verbatim>\<open>group_volume\<close> (\<open>label\<close> is
  \<^verbatim>\<open> (group)\<close>).\<close>

definition change_volume ::
  "(pyfloat \<Rightarrow> string) \<Rightarrow> string \<Rightarrow> doc \<Rightarrow> pos \<Rightarrow> elem \<Rightarrow> change \<Rightarrow> exn + doc \<times> string list" where
  "change_volume sf label d tp track_el c =
     (case db_to_linear (val c) of
        Inl e \<Rightarrow> Inl e
      | Inr linear_val \<Rightarrow>
          (case find_mixer track_el of
             None \<Rightarrow> Inl AttributeError
           | Some (mp, mixer) \<Rightarrow>
               (case find_path mixer [''Volume'', ''Manual''] of
                  None \<Rightarrow> Inr (d, [])
                | Some (vp, vol_el) \<Rightarrow>
                    (case py_float (el_get_or vol_el ''Value'' ''1'') of
                       None \<Rightarrow> Inl ValueError
                     | Some old_val \<Rightarrow>
                         (case fmt_val True 1 (val c) of
                            Inl e \<Rightarrow> Inl e
                          | Inr new_db \<Rightarrow>
                              Inr (d\<lparr>root := update_at (tp @ mp @ vp) (el_set ''Value'' (sf linear_val))
                                             (root d)\<rparr>,
                                   [''  '' @ track_name c @ label @ '': Volume '' @
                                    fmt_f True 1 (old_db_of old_val) @ '' '' @ arrow @ '' '' @
                                    new_db @ '' dB'']))))))"

definition change_pan ::
  "(pyfloat \<Rightarrow> string) \<Rightarrow> doc \<Rightarrow> pos \<Rightarrow> elem \<Rightarrow> change \<Rightarrow> exn + doc \<times> string list" where
  "change_pan sf d tp track_el c =
     (case pan_str_to_value sf (val c) of
        Inl e \<Rightarrow> Inl e
      | Inr pan_val \<Rightarrow>
          (case find_mixer track_el of
             None \<Rightarrow> Inl AttributeError
           | Some (mp, mixer) \<Rightarrow>
               (case find_path mixer [''Pan'', ''Manual''] of
                  None \<Rightarrow> Inr (d, [])
                | Some (pp, pan_el) \<Rightarrow>
                    (case py_float (el_get_or pan_el ''Value'' ''0'') of
                       None \<Rightarrow> Inl ValueError
                     | Some old_val \<Rightarrow>
                         (let old_str =
                                (if f_lt (f_abs old_val) (Fin (1 / 100)) then ''C''
                                 else fmt_f False 0 (f_mul 50 (f_abs old_val)) @
                                      (if f_lt old_val (Fin 0) then ''L'' else ''R''))
                          in Inr (d\<lparr>root := update_at (tp @ mp @ pp)
                                               (el_set ''Value'' (sf pan_val)) (root d)\<rparr>,
                                  [''  '' @ track_name c @ '': Pan '' @ old_str @ '' '' @ arrow @
                                   '' '' @ py_str sf (val c)]))))))"

text \<open>\<^verbatim>\<open>chr(65 + send_index)\<close>, for the labels \<open>A\<close>, \<open>B\<close>, \<open>C\<close>, ...: the character of that
  code point, which is one ASCII character for the first 63 sends and is written here
  as the bytes of its UTF-8 form beyond them; a code point that is negative or above
  \<open>0x10FFFF\<close> is Python's \<^verbatim>\<open>ValueError\<close>.\<close>

definition utf8 :: "nat \<Rightarrow> string" where
  "utf8 n =
     (if n < 128 then [char_of n]
      else if n < 2048 then [char_of (192 + n div 64), char_of (128 + n mod 64)]
      else if n < 65536 then
        [char_of (224 + n div 4096), char_of (128 + n div 64 mod 64), char_of (128 + n mod 64)]
      else
        [char_of (240 + n div 262144), char_of (128 + n div 4096 mod 64),
         char_of (128 + n div 64 mod 64), char_of (128 + n mod 64)])"

definition send_label :: "int \<Rightarrow> exn + string" where
  "send_label i =
     (if 65 + i < 0 \<or> 1114112 \<le> 65 + i then Inl ValueError else Inr (utf8 (nat (65 + i))))"

definition change_send ::
  "(pyfloat \<Rightarrow> string) \<Rightarrow> doc \<Rightarrow> pos \<Rightarrow> elem \<Rightarrow> change \<Rightarrow> exn + doc \<times> string list" where
  "change_send sf d tp track_el c =
     (case db_to_linear (val c) of
        Inl e \<Rightarrow> Inl e
      | Inr linear_val \<Rightarrow>
          (case find_mixer track_el of
             None \<Rightarrow> Inl AttributeError
           | Some (mp, mixer) \<Rightarrow>
               (case find_path mixer [''Sends''] of
                  None \<Rightarrow> Inr (d, [])
                | Some (sp, sends_el) \<Rightarrow>
                    (let holders = enumerate 0 (children sends_el)
                     in if send_index c < int (length holders) then
                          (case py_nth holders (send_index c) of
                             Inl e \<Rightarrow> Inl e
                           | Inr (i, holder) \<Rightarrow>
                               (case find_path holder [''Send'', ''Manual''] of
                                  None \<Rightarrow> Inr (d, [])
                                | Some (hp, send_manual) \<Rightarrow>
                                    (case py_float (el_get_or send_manual ''Value''
                                                      ''0.0003162277571'') of
                                       None \<Rightarrow> Inl ValueError
                                     | Some old_val \<Rightarrow>
                                         (let old_db = old_db_of old_val;
                                              old_str = (if old_db = PInf \<or> old_db = NInf then ''-inf''
                                                         else fmt_f True 1 old_db)
                                          in case send_label (send_index c) of
                                               Inl e \<Rightarrow> Inl e
                                             | Inr lab \<Rightarrow>
                                                 (case fmt_val True 1 (val c) of
                                                    Inl e \<Rightarrow> Inl e
                                                  | Inr new_db \<Rightarrow>
                                                      Inr (d\<lparr>root :=
                                                               update_at (tp @ mp @ sp @ [i] @ hp)
                                                                 (el_set ''Value'' (sf linear_val))
                                                                 (root d)\<rparr>,
                                                           [''  '' @ track_name c @ '': Send '' @
                                                            lab @ '' '' @ old_str @ '' '' @ arrow @
                                                            '' '' @ new_db @ '' dB'']))))))
                        else Inr (d, [])))))"

definition is_db_linear :: "string \<Rightarrow> string \<Rightarrow> bool" where
  "is_db_linear dtag pname = ((dtag, pname) \<in> set db_linear_params)"

definition change_device_param ::
  "(pyfloat \<Rightarrow> string) \<Rightarrow> doc \<Rightarrow> pos \<Rightarrow> elem \<Rightarrow> change \<Rightarrow> exn + doc \<times> string list" where
  "change_device_param sf d tp track_el c =
     (case find_device track_el (device_tag c) (device_index c) of
        Inl e \<Rightarrow> Inl e
      | Inr None \<Rightarrow>
          Inr (d, [''ERROR: Could not find device '' @ quote @ device_tag c @ quote @
                   '' on track '' @ quote @ track_name c @ quote])
      | Inr (Some (dp, device)) \<Rightarrow>
          (case (if is_db_linear (device_tag c) (param_name c)
                 then (case db_to_linear (param_value c) of
                         Inl e \<Rightarrow> Inl e
                       | Inr x \<Rightarrow> Inr (PFloat x, py_str sf (param_value c) @ '' dB''))
                 else Inr (param_value c, py_str sf (param_value c))) of
             Inl e \<Rightarrow> Inl e
           | Inr (new_value, display_value) \<Rightarrow>
               (let old_value =
                      (case find_path device (split_slash (param_name c)) of
                         None \<Rightarrow> None
                       | Some (q, target_el) \<Rightarrow>
                           (case find_path target_el [''Manual''] of
                              Some (m, manual) \<Rightarrow> el_get manual ''Value''
                            | None \<Rightarrow> el_get target_el ''Value''))
                in case (case old_value of
                           None \<Rightarrow> Inr ''?''
                         | Some ov \<Rightarrow>
                             if is_db_linear (device_tag c) (param_name c)
                             then (case py_float ov of
                                     None \<Rightarrow> Inl ValueError
                                   | Some old_float \<Rightarrow>
                                       if f_lt (Fin cutoff) old_float
                                       then Inr (fmt_f False 1 (f_scale 20 (log10 old_float)) @ '' dB'')
                                       else Inr ''-inf dB'')
                             else Inr ov) of
                     Inl e \<Rightarrow> Inl e
                   | Inr old_str \<Rightarrow>
                       (case set_param_value sf device (param_name c) new_value of
                          (device', success) \<Rightarrow>
                            if success then
                              Inr (d\<lparr>root := update_at (tp @ dp) (\<lambda>x. device') (root d)\<rparr>,
                                   [''  '' @ track_name c @ '': '' @
                                    (case device_name c of None \<Rightarrow> device_tag c | Some n \<Rightarrow> n) @
                                    '' '' @ param_name c @ '' '' @ old_str @ '' '' @ arrow @ '' '' @
                                    display_value])
                            else
                              Inr (d, [''ERROR: Could not set '' @ param_name c @ '' on '' @
                                       device_tag c @ '' for track '' @ quote @ track_name c @
                                       quote])))))"

text \<open>The loop \<^verbatim>\<open>for param_path, param_val in params.items()\<close> of the branch \<^verbatim>\<open>add_device\<close>,
  on the clone.\<close>

fun apply_params ::
  "(pyfloat \<Rightarrow> string) \<Rightarrow> string \<Rightarrow> string \<Rightarrow> (string \<times> pyval) list \<Rightarrow> elem \<Rightarrow> elem res" where
  "apply_params sf dtag tname [] new_device = Done new_device"
| "apply_params sf dtag tname ((param_path, param_val) # ps) new_device =
     (case (if is_db_linear dtag param_path
            then (case to_float param_val of
                    Inl e \<Rightarrow> Inl e
                  | Inr x \<Rightarrow>
                      (case db_to_linear (PFloat x) of Inl e \<Rightarrow> Inl e | Inr y \<Rightarrow> Inr (PFloat y)))
            else Inr param_val) of
        Inl e \<Rightarrow> Raised e
      | Inr actual_val \<Rightarrow>
          (case set_param_value sf new_device param_path actual_val of
             (new_device', success) \<Rightarrow>
               if success then apply_params sf dtag tname ps new_device'
               else Failed (''ERROR: Could not set param '' @ quote @ param_path @ quote @
                            '' on new '' @ dtag @ '' for '' @ quote @ tname @ quote)))"

text \<open>The clone of the donor as the branch prepares it before the requested parameters:
  \<^verbatim>\<open>copy.deepcopy\<close> (a value here), \<^verbatim>\<open>remap_ids\<close> from the document's maximum plus one, the
  reset routine of the device type if there is one, and the enabled flag forced on.\<close>

definition prepare_clone :: "(pyfloat \<Rightarrow> string) \<Rightarrow> elem \<Rightarrow> string \<Rightarrow> elem \<Rightarrow> elem" where
  "prepare_clone sf r dtag donor =
     (let max_id = find_max_id r;
          new_device = fst (remap_ids donor (max_id + 1));
          new_device = (case device_resetters sf dtag of
                          None \<Rightarrow> new_device
                        | Some resetter \<Rightarrow> resetter new_device)
      in set_if_found [''On'', ''Manual''] ''true'' new_device)"

definition change_add_device ::
  "(pyfloat \<Rightarrow> string) \<Rightarrow> doc \<Rightarrow> pos \<Rightarrow> elem \<Rightarrow> change \<Rightarrow> exn + doc \<times> string list" where
  "change_add_device sf d tp track_el c =
     (case find_donor_device (root d) (device_tag c) of
        None \<Rightarrow>
          Inr (d, [''ERROR: No existing '' @ quote @ device_tag c @ quote @
                   '' found in project to use as template''])
      | Some (donor_pos, donor) \<Rightarrow>
          (case apply_params sf (device_tag c) (track_name c) (params c)
                  (prepare_clone sf (root d) (device_tag c) donor) of
             Raised e \<Rightarrow> Inl e
           | Failed msg \<Rightarrow> Inr (d, [msg])
           | Done new_device \<Rightarrow>
               (case find_path track_el [''DeviceChain'', ''DeviceChain'', ''Devices''] of
                  None \<Rightarrow>
                    Inr (d, [''ERROR: No device chain found on track '' @ quote @ track_name c @
                             quote])
                | Some (vp, devices_el) \<Rightarrow>
                    (let n = length (children devices_el);
                         at_end = (position c = - 1 \<or> int n \<le> position c);
                         k = (if at_end then n else insert_index n (position c));
                         pos_desc = (if at_end then ''end''
                                     else ''position '' @ str_int (position c));
                         param_desc =
                           (if params c = [] then ''defaults''
                            else join '', ''
                                   (map (\<lambda>(k, v). k @ ''='' @ py_str sf v) (params c)))
                     in Inr (\<lparr>root = update_at (tp @ vp) (el_insert_at k new_device) (root d),
                              tracks_el = shift_pos (tp @ vp) k (tracks_el d)\<rparr>,
                             [''  '' @ track_name c @ '': Added '' @
                              (case device_name c of None \<Rightarrow> device_tag c | Some n \<Rightarrow> n) @
                              '' at '' @ pos_desc @ '' ('' @ param_desc @ '')''])))))"

subsection \<open>\<^verbatim>\<open>apply_change\<close> and the loop of \<^verbatim>\<open>main\<close>\<close>

definition apply_change :: "(pyfloat \<Rightarrow> string) \<Rightarrow> doc \<Rightarrow> change \<Rightarrow> exn + doc \<times> string list" where
  "apply_change sf d c =
     (case resolve_track d c of
        Raised e \<Rightarrow> Inl e
      | Failed msg \<Rightarrow> Inr (d, [msg])
      | Done (tp, track_el) \<Rightarrow>
          if target c = ''volume'' then change_volume sf [] d tp track_el c
          else if target c = ''pan'' then change_pan sf d tp track_el c
          else if target c = ''send'' then change_send sf d tp track_el c
          else if target c = ''device_param'' then change_device_param sf d tp track_el c
          else if target c = ''add_device'' then change_add_device sf d tp track_el c
          else if target c = ''group_volume'' then change_volume sf '' (group)'' d tp track_el c
          else Inr (d, []))"

text \<open>
  The loop of \<^verbatim>\<open>main\<close> over the change list, with its two accumulators
  \<^verbatim>\<open>all_descriptions\<close> and \<^verbatim>\<open>errors\<close>. Nothing in \<^verbatim>\<open>main\<close> or in \<^verbatim>\<open>apply_change\<close> catches an
  exception: one raised while a request is applied ends the run there, before the output
  file is written.
\<close>

definition is_error :: "string \<Rightarrow> bool" where
  "is_error desc = startswith desc ''ERROR:''"

fun run_changes ::
  "(pyfloat \<Rightarrow> string) \<Rightarrow> change list \<Rightarrow> doc \<times> string list \<times> string list \<Rightarrow>
   exn + doc \<times> string list \<times> string list" where
  "run_changes sf [] st = Inr st"
| "run_changes sf (c # cs) (d, all_descriptions, errors) =
     (case apply_change sf d c of
        Inl e \<Rightarrow> Inl e
      | Inr (d', result) \<Rightarrow>
          run_changes sf cs
            (d', all_descriptions @ filter (\<lambda>x. \<not> is_error x) result,
             errors @ filter is_error result))"

section \<open>Observations and an example project\<close>

text \<open>The values of the \<^verbatim>\<open>Id\<close> attributes of a document, in document order.\<close>

definition id_values :: "elem \<Rightarrow> string list" where
  "id_values e = List.map_filter (\<lambda>(p, x). el_get x ''Id'') (iter_el e)"

text \<open>
  A small Live set for the examples: one audio track named \<^verbatim>\<open>Snare\<close> whose mixer has two
  sends and neither a volume nor a pan holder, and whose device chain holds a compressor
  with parameters away from the defaults. \<open>ex_repr\<close> stands for Python's \<^verbatim>\<open>str\<close> on the
  few floats the examples write.
\<close>

definition ex_param :: "string \<Rightarrow> string \<Rightarrow> elem" where
  "ex_param n v = Elem n [] [Elem ''Manual'' [(''Value'', v)] []]"

definition ex_compressor :: elem where
  "ex_compressor =
     Elem ''Compressor2'' [(''Id'', ''5'')]
       [ex_param ''On'' ''false'',
        Elem ''Threshold'' []
          [Elem ''Manual'' [(''Value'', ''0.25'')] [], Elem ''AutomationTarget'' [(''Id'', ''6'')] []],
        ex_param ''Ratio'' ''8'',
        Elem ''Attack'' [(''Value'', ''1'')] []]"

definition ex_mixer :: elem where
  "ex_mixer =
     Elem ''Mixer'' []
       [Elem ''Sends'' []
          [Elem ''TrackSendHolder'' [] [ex_param ''Send'' ''0.0003162277571''],
           Elem ''TrackSendHolder'' [] [ex_param ''Send'' ''1'']]]"

definition ex_track :: elem where
  "ex_track =
     Elem ''AudioTrack'' [(''Id'', ''1'')]
       [Elem ''Name'' [] [Elem ''EffectiveName'' [(''Value'', ''Snare'')] []],
        Elem ''DeviceChain'' []
          [ex_mixer, Elem ''DeviceChain'' [] [Elem ''Devices'' [] [ex_compressor]]]]"

definition ex_liveset :: elem where
  "ex_liveset = Elem ''Ableton'' [] [Elem ''LiveSet'' [] [Elem ''Tracks'' [] [ex_track]]]"

definition ex_doc :: doc where
  "ex_doc = \<lparr>root = ex_liveset, tracks_el = [0, 0]\<rparr>"

definition ex_repr :: "pyfloat \<Rightarrow> string" where
  "ex_repr x = (if x = Fin 1 then ''1.0'' else if x = Fin 0 then ''0.0'' else ''0.36'')"

definition ex_change :: change where
  "ex_change =
     \<lparr>track_name = ''Snare'', track_type = None, track_index = 0, target = ''volume'',
      val = PInt 0, send_index = 0, device_tag = ''Compressor2'', device_index = 0,
      param_name = ''Ratio'', param_value = PInt 4, device_name = None, position = - 1,
      params = []\<rparr>"

text \<open>The tree with only its tags and the marks of which elements carry an \<^verbatim>\<open>Id\<close>: what
  the searches by tag and the numbering of identifiers depend on.\<close>

fun skeleton :: "elem \<Rightarrow> elem" where
  "skeleton (Elem t a cs) =
     Elem t (if map_of a ''Id'' = None then [] else [(''Id'', [])]) (map skeleton cs)"








section \<open>Properties of the unit codec\<close>

subsection \<open>Numeric bounds around the cutoff\<close>

lemma pow10_20000th: "10 powr (1 / 20000) \<le> (10002 / 10000 :: real)"
proof (rule ccontr)
  let ?t = "10 powr (1 / 20000) :: real"
  let ?c = "10002 / 10000 :: real"
  assume "\<not> ?t \<le> ?c"
  then have lt: "?c < ?t" by simp
  have pw: "\<And>r::real. r ^ 20000 = (((((r ^ 10) ^ 10) ^ 10) ^ 10) ^ 2)"
    by (simp add: power_mult [symmetric])
  have "?c ^ 20000 < ?t ^ 20000"
    by (rule power_strict_mono [OF lt]) simp_all
  moreover have "?t ^ 20000 = 10"
    by (simp add: powr_power)
  moreover have "(10::real) \<le> ?c ^ 20000"
  proof -
    have 1: "(1002 / 1000 :: real) \<le> ?c ^ 10" by (simp add: power_divide)
    have 2: "(102 / 100 :: real) \<le> (1002 / 1000) ^ 10" by (simp add: power_divide)
    have 3: "(12 / 10 :: real) \<le> (102 / 100) ^ 10" by (simp add: power_divide)
    have 4: "(6 :: real) \<le> (12 / 10) ^ 10" by (simp add: power_divide)
    have 5: "(10 :: real) \<le> 6 ^ 2" by simp
    have a: "(1002 / 1000 :: real) ^ 10 \<le> (?c ^ 10) ^ 10"
      by (rule power_mono [OF 1]) simp
    have b: "(102 / 100 :: real) ^ 10 \<le> ((?c ^ 10) ^ 10) ^ 10"
      by (rule order_trans [OF power_mono [OF 2] power_mono [OF a]]) simp_all
    have c: "(12 / 10 :: real) ^ 10 \<le> (((?c ^ 10) ^ 10) ^ 10) ^ 10"
      by (rule order_trans [OF power_mono [OF 3] power_mono [OF b]]) simp_all
    have d: "(6 :: real) ^ 2 \<le> ((((?c ^ 10) ^ 10) ^ 10) ^ 10) ^ 2"
      by (rule order_trans [OF power_mono [OF 4] power_mono [OF c]]) simp_all
    show ?thesis unfolding pw using 5 d by linarith
  qed
  ultimately show False by linarith
qed

lemma pow10_half: "10 powr (1 / 2) \<le> (31623 / 10000 :: real)"
proof -
  have "sqrt 10 \<le> 31623 / 10000"
    by (rule real_le_lsqrt) (simp_all add: power_divide)
  then show ?thesis by (simp add: powr_half_sqrt)
qed

text \<open>The amplitude of \<open>-69.999\<close> dB is still below the cutoff \<open>0.0003163\<close>.\<close>

lemma below_cutoff: "10 powr (- 69999 / 20000) \<le> (3163 / 10 ^ 7 :: real)"
proof -
  have "(- 69999 / 20000 :: real) = - 4 + 1 / 2 + 1 / 20000" by simp
  then have "10 powr (- 69999 / 20000 :: real) =
      10 powr (- 4) * 10 powr (1 / 2) * 10 powr (1 / 20000)"
    by (simp only: powr_add)
  also have "\<dots> \<le> 10 powr (- 4) * (31623 / 10000) * (10002 / 10000)"
    by (intro mult_mono pow10_half pow10_20000th) simp_all
  also have "(10::real) powr (- 4) = 1 / 10 ^ 4"
    by (simp add: powr_minus_divide)
  finally show ?thesis by simp
qed

lemma amplitude_cutoff_iff:
  "(10 powr (x / 20) \<le> (3163 / 10 ^ 7 :: real)) = (x \<le> 20 * log 10 (3163 / 10 ^ 7))"
proof -
  have "(10 powr (x / 20) \<le> (3163 / 10 ^ 7 :: real)) = (x / 20 \<le> log 10 (3163 / 10 ^ 7))"
    by (rule powr_le_iff) simp_all
  then show ?thesis by auto
qed

lemma cutoff_db_lower: "(- 69999 / 1000 :: real) \<le> 20 * log 10 (3163 / 10 ^ 7)"
  using below_cutoff amplitude_cutoff_iff [of "- 69999 / 1000"] by simp

subsection \<open>C4: where \<^verbatim>\<open>vol_to_db\<close> snaps to minus infinity\<close>

text \<open>
  C4, as the spec states it, puts the boundary of \<^verbatim>\<open>linearToDb\<close> at the silence floor
  \<open>0.0003162277571\<close> that \<^verbatim>\<open>db_to_linear\<close> returns. The code compares with \<open>0.0003163\<close>:
  the amplitude \<open>0.00031625\<close> lies above the silence floor and is still mapped to minus
  infinity.
\<close>

theorem vol_to_db_floor_counterexample:
  "vol_to_db (PFloat (Fin (31625 / 10 ^ 8))) = Inr (Some NInf) \<and>
   (3162277571 / 10 ^ 13 :: real) < 31625 / 10 ^ 8 \<and>
   db_to_linear PNone = Inr (Fin (3162277571 / 10 ^ 13))"
  by (simp add: vol_to_db_def cutoff_def silence_floor_def)

text \<open>
  C4 (amended): for every finite amplitude \<open>a\<close>, \<^verbatim>\<open>vol_to_db\<close> returns minus infinity
  exactly when \<open>a \<le> 0.0003163\<close> and \<open>20 \<sqdot> log\<^sub>1\<^sub>0 a\<close> otherwise; the silence floor of
  \<^verbatim>\<open>db_to_linear\<close> itself is mapped to minus infinity; an amplitude given as text is
  parsed first, and text that is no number gives \<^verbatim>\<open>None\<close>.
\<close>

theorem vol_to_db_cutoff:
  "(vol_to_db (PFloat (Fin a)) = Inr (Some NInf) \<longleftrightarrow> a \<le> 3163 / 10 ^ 7) \<and>
   vol_to_db (PFloat (Fin a)) =
     Inr (Some (if a \<le> 3163 / 10 ^ 7 then NInf else Fin (20 * log 10 a))) \<and>
   vol_to_db (PFloat (Fin silence_floor)) = Inr (Some NInf) \<and>
   vol_to_db (PStr s) =
     (case py_float s of None \<Rightarrow> Inr None | Some x \<Rightarrow> vol_to_db (PFloat x))"
  by (simp add: vol_to_db_def cutoff_def silence_floor_def split: option.split)

subsection \<open>C5: the decibel round trip\<close>

text \<open>The range of \<^verbatim>\<open>10 ** (db / 20.0)\<close>: the amplitude of \<open>6165\<close> dB is still a double, the
  amplitude of \<open>6166\<close> dB is not.\<close>

lemma pow10_quarter: "10 powr (1 / 4) \<le> (17783 / 10000 :: real)"
proof (rule ccontr)
  let ?t = "10 powr (1 / 4) :: real"
  assume "\<not> ?t \<le> 17783 / 10000"
  then have "(17783 / 10000 :: real) < ?t" by simp
  then have "(17783 / 10000 :: real) ^ 4 < ?t ^ 4"
    by (rule power_strict_mono) simp_all
  moreover have "?t ^ 4 = 10" by (simp add: powr_power)
  moreover have "(10 :: real) \<le> (17783 / 10000) ^ 4" by (simp add: power_divide)
  ultimately show False by linarith
qed

lemma pow10_three_tenths: "(199 / 100 :: real) \<le> 10 powr (3 / 10)"
proof (rule ccontr)
  let ?t = "10 powr (3 / 10) :: real"
  assume "\<not> 199 / 100 \<le> ?t"
  then have "?t < 199 / 100" by simp
  then have "?t ^ 10 < (199 / 100 :: real) ^ 10"
    by (rule power_strict_mono) simp_all
  moreover have "?t ^ 10 = 10 ^ 3" by (simp add: powr_power)
  moreover have "(199 / 100 :: real) ^ 10 \<le> 10 ^ 3" by (simp add: power_divide)
  ultimately show False by linarith
qed

lemma in_range_6165: "x \<le> 6165 \<Longrightarrow> 10 powr (x / 20) < float_limit"
proof -
  assume "x \<le> 6165"
  then have "10 powr (x / 20) \<le> (10 :: real) powr (308 + 1 / 4)"
    by (intro powr_mono) simp_all
  also have "\<dots> = 10 powr 308 * 10 powr (1 / 4)" by (simp only: powr_add)
  also have "\<dots> \<le> 10 powr 308 * (17783 / 10000)"
    by (intro mult_left_mono pow10_quarter) simp
  also have "(10 :: real) powr 308 = 10 ^ 308" by (simp add: powr_realpow [symmetric])
  also have "(10 :: real) ^ 308 * (17783 / 10000) < float_limit"
    by (simp add: float_limit_def)
  finally show ?thesis .
qed

lemma out_of_range_6166: "6166 \<le> x \<Longrightarrow> float_limit \<le> 10 powr (x / 20)"
proof -
  assume "6166 \<le> x"
  have "float_limit \<le> (10 :: real) ^ 308 * (199 / 100)"
    by (simp add: float_limit_def)
  also have "(10 :: real) ^ 308 = 10 powr 308" by (simp add: powr_realpow [symmetric])
  also have "10 powr 308 * (199 / 100) \<le> (10 :: real) powr 308 * 10 powr (3 / 10)"
    by (intro mult_left_mono pow10_three_tenths) simp
  also have "\<dots> = 10 powr (308 + 3 / 10)" by (simp only: powr_add)
  also have "\<dots> \<le> 10 powr (x / 20)"
    using \<open>6166 \<le> x\<close> by (intro powr_mono) simp_all
  finally show ?thesis .
qed

text \<open>
  C5, as the spec states it, promises \<^verbatim>\<open>linearToDb(dbToLinear(x))\<close> close to \<open>x\<close> for every
  finite \<open>x > -70\<close>. At \<open>x = -69.999\<close> the amplitude \<open>10\<^sup>x\<^sup>/\<^sup>2\<^sup>0\<close> is below the cutoff
  \<open>0.0003163\<close> of \<^verbatim>\<open>vol_to_db\<close>, and the composition returns minus infinity.
\<close>

theorem round_trip_counterexample:
  "(- 70 :: real) < - 69999 / 1000 \<and>
   (case db_to_linear (PFloat (Fin (- 69999 / 1000))) of
      Inl e \<Rightarrow> Inl e | Inr y \<Rightarrow> vol_to_db (PFloat y)) = Inr (Some NInf)"
proof -
  have "10 powr (- 69999 / 20000) < float_limit"
    using in_range_6165 [of "- 69999 / 1000"] by simp
  then show ?thesis
    using below_cutoff by (simp add: vol_to_db_def cutoff_def)
qed

text \<open>
  C5 (amended): for every finite \<open>x\<close> up to \<open>6165\<close> dB, \<^verbatim>\<open>vol_to_db(db_to_linear(x))\<close> is \<open>x\<close>
  when \<open>x\<close> lies above \<open>20 \<sqdot> log\<^sub>1\<^sub>0 0.0003163\<close> (about \<open>-69.998\<close>) and minus infinity
  otherwise, and \<^verbatim>\<open>db_to_linear(x)\<close> is the silence floor \<open>0.0003162277571\<close> exactly for
  \<open>x \<le> -70\<close> and \<open>10\<^sup>x\<^sup>/\<^sup>2\<^sup>0\<close> above; from \<open>6166\<close> dB on \<^verbatim>\<open>db_to_linear\<close> raises
  \<^verbatim>\<open>OverflowError\<close> and there is no round trip; an int behaves as the float of the same
  value; minus infinity and \<^verbatim>\<open>None\<close> give the silence floor.
\<close>

theorem round_trip_above_cutoff:
  "(x \<le> 6165 \<longrightarrow>
      (case db_to_linear (PFloat (Fin x)) of Inl e \<Rightarrow> Inl e | Inr y \<Rightarrow> vol_to_db (PFloat y)) =
        Inr (Some (if x \<le> 20 * log 10 (3163 / 10 ^ 7) then NInf else Fin x)) \<and>
      db_to_linear (PFloat (Fin x)) =
        Inr (Fin (if x \<le> - 70 then 3162277571 / 10 ^ 13 else 10 powr (x / 20)))) \<and>
   (6166 \<le> x \<longrightarrow> db_to_linear (PFloat (Fin x)) = Inl OverflowError) \<and>
   db_to_linear (PInt k) = db_to_linear (PFloat (Fin (real_of_int k))) \<and>
   db_to_linear (PFloat NInf) = Inr (Fin (3162277571 / 10 ^ 13)) \<and>
   db_to_linear PNone = Inr (Fin (3162277571 / 10 ^ 13))"
proof -
  have low: "x \<le> - 70 \<Longrightarrow> x \<le> 20 * log 10 (3163 / 10 ^ 7)"
    using cutoff_db_lower by linarith
  have floor: "vol_to_db (PFloat (Fin silence_floor)) = Inr (Some NInf)"
    by (simp add: vol_to_db_def cutoff_def silence_floor_def)
  have trip: "vol_to_db (PFloat (Fin (10 powr (x / 20)))) =
      Inr (Some (if x \<le> 20 * log 10 (3163 / 10 ^ 7) then NInf else Fin x))"
    using amplitude_cutoff_iff [of x] by (simp add: vol_to_db_def cutoff_def)
  have lin: "x \<le> 6165 \<Longrightarrow> db_to_linear (PFloat (Fin x)) =
      Inr (Fin (if x \<le> - 70 then silence_floor else 10 powr (x / 20)))"
    using in_range_6165 [of x] by simp
  have a: "x \<le> 6165 \<Longrightarrow>
      (case db_to_linear (PFloat (Fin x)) of Inl e \<Rightarrow> Inl e | Inr y \<Rightarrow> vol_to_db (PFloat y)) =
        Inr (Some (if x \<le> 20 * log 10 (3163 / 10 ^ 7) then NInf else Fin x))"
    using low floor trip by (simp add: lin del: db_to_linear.simps)
  have b: "6166 \<le> x \<Longrightarrow> db_to_linear (PFloat (Fin x)) = Inl OverflowError"
    using out_of_range_6166 [of x] by simp
  have c: "db_to_linear (PInt k) = db_to_linear (PFloat (Fin (real_of_int k)))"
  proof (cases "float_limit \<le> \<bar>real_of_int k\<bar> \<and> \<not> k \<le> - 70")
    case True
    have "(6166 :: real) \<le> float_limit" by (simp add: float_limit_def)
    with True have "6166 \<le> real_of_int k" by linarith
    from out_of_range_6166 [OF this] True show ?thesis by simp
  next
    case False
    then show ?thesis by auto
  qed
  show ?thesis
    using a b c lin by (simp add: silence_floor_def)
qed

theorem round_trip_above_cutoff_witness:
  "(0 :: real) \<le> 6165 \<and>
   (case db_to_linear (PFloat (Fin 0)) of Inl e \<Rightarrow> Inl e | Inr y \<Rightarrow> vol_to_db (PFloat y)) =
     Inr (Some (Fin 0)) \<and>
   db_to_linear (PFloat (Fin 0)) = Inr (Fin 1) \<and>
   (6166 :: real) \<le> 7000 \<and>
   db_to_linear (PFloat (Fin 7000)) = Inl OverflowError \<and>
   db_to_linear (PInt (- 6)) = db_to_linear (PFloat (Fin (real_of_int (- 6))))"
proof -
  have le0: "(0 :: real) \<le> 6165" and le1: "(6166 :: real) \<le> 7000" by simp_all
  have i1: "(if (0 :: real) \<le> 20 * log 10 (3163 / 10 ^ 7) then NInf else Fin 0) = Fin 0"
    by simp
  have i2: "Fin (if (0 :: real) \<le> - 70 then 3162277571 / 10 ^ 13 else 10 powr (0 / 20)) = Fin 1"
    by simp
  note T0 = round_trip_above_cutoff [of 0 "- 6", THEN conjunct1, rule_format, OF le0,
      unfolded i1 i2]
  note T1 = round_trip_above_cutoff [of 7000 "- 6", THEN conjunct2]
  show ?thesis using le0 le1 T0 T1 by blast
qed

section \<open>Properties of the document model\<close>

subsection \<open>Positions, searches and updates\<close>

lemma subtree_append:
  "subtree e (p @ q) = (case subtree e p of None \<Rightarrow> None | Some a \<Rightarrow> subtree a q)"
  by (induction p arbitrary: e) auto

lemma find_path_subtree:
  "find_path e ss = Some (p, x) \<Longrightarrow> subtree e p = Some x"
  "find_children cs i s ss = Some (p, x) \<Longrightarrow>
     \<exists>j q. p = (i + j) # q \<and> j < length cs \<and> subtree (cs ! j) q = Some x"
proof (induction e ss and cs i s ss arbitrary: p x and p x rule: find_path_find_children.induct)
  case (1 e)
  then show ?case by simp
next
  case (2 t a cs s ss)
  then show ?case by fastforce
next
  case (3 i s ss)
  then show ?case by simp
next
  case (4 c cs i s ss)
  show ?case
  proof (cases "tag c = s \<and> find_path c ss \<noteq> None")
    case True
    then obtain q y where f: "find_path c ss = Some (q, y)" by auto
    with True "4.prems" have "p = i # q" "x = y" by auto
    moreover from "4.IH"(1) True f have "subtree c q = Some y" by auto
    ultimately show ?thesis by (intro exI [of _ 0] exI [of _ q]) simp
  next
    case False
    then have "find_children cs (Suc i) s ss = Some (p, x)"
      using "4.prems" by (auto split: if_splits option.splits)
    then obtain j q where "p = (Suc i + j) # q" "j < length cs" "subtree (cs ! j) q = Some x"
      using "4.IH"(2,3) False by (metis (no_types, lifting) option.exhaust)
    then show ?thesis by (intro exI [of _ "Suc j"] exI [of _ q]) simp
  qed
qed

lemma subtree_update_at:
  "subtree e p = Some x \<Longrightarrow> subtree (update_at p f e) p = Some (f x)"
  by (induction p arbitrary: e) (auto split: if_splits)

lemma update_at_append: "update_at (p @ q) f e = update_at p (update_at q f) e"
  by (induction p arbitrary: e) auto

lemma subtree_update_at_prefix:
  "subtree e p = Some x \<Longrightarrow> subtree (update_at (p @ q) f e) p = Some (update_at q f x)"
  by (simp add: update_at_append subtree_update_at)

lemma skeleton_sel [simp]:
  "tag (skeleton e) = tag e" "children (skeleton e) = map skeleton (children e)"
  by (cases e; simp)+

lemma skeleton_update_at:
  "(\<And>x. skeleton (f x) = skeleton x) \<Longrightarrow> skeleton (update_at p f e) = skeleton e"
proof (induction p arbitrary: e)
  case Nil
  then show ?case by simp
next
  case (Cons i p)
  show ?case
  proof (cases e)
    case (Elem t a cs)
    then show ?thesis using Cons by (simp add: map_update list_update_same_conv)
  qed
qed

lemma skeleton_el_set [simp]: "k \<noteq> ''Id'' \<Longrightarrow> skeleton (el_set k v e) = skeleton e"
  by (cases e) (simp add: el_set_def update_conv)

lemma subtree_skeleton: "subtree (skeleton e) p = map_option skeleton (subtree e p)"
  by (induction p arbitrary: e) auto

lemma find_path_skeleton:
  "map_option fst (find_path (skeleton e) ss) = map_option fst (find_path e ss)"
  "map_option fst (find_children (map skeleton cs) i s ss) = map_option fst (find_children cs i s ss)"
proof (induction e ss and cs i s ss rule: find_path_find_children.induct)
  case (1 e)
  then show ?case by simp
next
  case (2 t a cs s ss)
  then show ?case by simp
next
  case (3 i s ss)
  then show ?case by simp
next
  case (4 c cs i s ss)
  then show ?case
    by (cases "find_path c ss"; cases "find_path (skeleton c) ss") (auto split: option.splits)
qed


lemma find_path_same_skeleton_None:
  assumes "skeleton e' = skeleton e" and "find_path e ss = None"
  shows "find_path e' ss = None"
proof -
  have "map_option fst (find_path e' ss) = map_option fst (find_path e ss)"
    using find_path_skeleton(1) [of e' ss] find_path_skeleton(1) [of e ss] assms(1) by simp
  with assms(2) show ?thesis by simp
qed

lemma walk_parts_snoc:
  "walk_parts e ss = Some (p, cur) \<Longrightarrow> find_path cur [s] = Some (q, t) \<Longrightarrow>
   walk_parts e (ss @ [s]) = Some (p @ q, t)"
  by (induction ss arbitrary: e p) (auto split: option.splits)




lemma find_children_single_None:
  "find_children cs k s [] = None \<Longrightarrow> \<forall>c\<in>set cs. tag c \<noteq> s"
  by (induction cs arbitrary: k) (auto split: if_splits)


lemma find_path_single_None:
  "find_path e [s] = None \<Longrightarrow> \<forall>c\<in>set (children e). tag c \<noteq> s"
  using find_children_single_None [of "children e" 0 s] by (cases e) simp






lemma split_slash_nonempty [simp]: "split_slash s \<noteq> []"
  by (induction s) (auto split: list.splits)

lemma el_get_el_set [simp]: "el_get (el_set k v e) k = Some v"
  by (simp add: el_get_def el_set_def update_conv)

lemma el_set_sel [simp]:
  "tag (el_set k v e) = tag e" "children (el_set k v e) = children e"
  by (simp_all add: el_set_def)

lemma update_at_single:
  "i < length (children t) \<Longrightarrow>
   update_at [i] f t = Elem (tag t) (attrib t) ((children t)[i := f (children t ! i)])"
  by simp









subsection \<open>C7: the two storage forms of a parameter\<close>




subsection \<open>Decimal text\<close>

lemma of_char_digit_char: "d < 10 \<Longrightarrow> (of_char (digit_char d) :: nat) = 48 + d"
  by (simp add: digit_char_def)

lemma is_digit_digit_char: "d < 10 \<Longrightarrow> is_digit (digit_char d)"
  by (simp add: is_digit_def of_char_digit_char)

lemma digit_val_digit_char: "d < 10 \<Longrightarrow> digit_val (digit_char d) = d"
  by (simp add: digit_val_def of_char_digit_char)

lemma str_nat_digits: "c \<in> set (str_nat n) \<Longrightarrow> is_digit c"
proof (induction n arbitrary: c rule: str_nat.induct)
  case (1 n)
  show ?case
  proof (cases "n < 10")
    case True
    then show ?thesis using "1.prems" by (simp add: str_nat.simps [of n] is_digit_digit_char)
  next
    case False
    then show ?thesis using "1.prems" "1.IH"
      by (auto simp: str_nat.simps [of n] is_digit_digit_char)
  qed
qed

lemma str_nat_nonempty: "str_nat n \<noteq> []"
  by (simp add: str_nat.simps [of n])

lemma digit_not_space: "is_digit c \<Longrightarrow> \<not> is_space c"
  by (auto simp: is_digit_def is_space_def Let_def)

lemma digit_not_sign: "is_digit c \<Longrightarrow> c \<noteq> CHR ''-'' \<and> c \<noteq> CHR ''+'' \<and> c \<noteq> CHR ''_''"
  by (auto simp: is_digit_def)

lemma strip_no_space: "s \<noteq> [] \<Longrightarrow> \<not> is_space (hd s) \<Longrightarrow> \<not> is_space (last s) \<Longrightarrow> strip s = s"
proof -
  assume a: "s \<noteq> []" "\<not> is_space (hd s)" "\<not> is_space (last s)"
  then have "dropWhile is_space s = s" by (cases s) auto
  moreover have "dropWhile is_space (rev s) = rev s"
    using a by (cases "rev s") (auto simp: last_rev [symmetric] hd_rev)
  ultimately show ?thesis by (simp add: strip_def)
qed

lemma strip_digits: "s \<noteq> [] \<Longrightarrow> \<forall>c\<in>set s. is_digit c \<Longrightarrow> strip s = s"
  by (intro strip_no_space) (auto simp: digit_not_space)

lemma blank_space: "is_blank c \<Longrightarrow> is_space c"
  by (auto simp: is_blank_def is_space_def Let_def)

lemma trim_blank_no_blank:
  "s \<noteq> [] \<Longrightarrow> \<not> is_blank (hd s) \<Longrightarrow> \<not> is_blank (last s) \<Longrightarrow> trim_blank s = s"
proof -
  assume a: "s \<noteq> []" "\<not> is_blank (hd s)" "\<not> is_blank (last s)"
  then have "dropWhile is_blank s = s" by (cases s) auto
  moreover have "dropWhile is_blank (rev s) = rev s"
    using a by (cases "rev s") (auto simp: last_rev [symmetric] hd_rev)
  ultimately show ?thesis by (simp add: trim_blank_def)
qed

lemma trim_blank_digits: "s \<noteq> [] \<Longrightarrow> \<forall>c\<in>set s. is_digit c \<Longrightarrow> trim_blank s = s"
  by (intro trim_blank_no_blank) (auto dest: blank_space simp: digit_not_space)

lemma split_sign_digits: "s \<noteq> [] \<Longrightarrow> \<forall>c\<in>set s. is_digit c \<Longrightarrow> split_sign s = (False, s)"
  by (cases s) (auto dest: digit_not_sign)

lemma digits_us_digits: "s \<noteq> [] \<Longrightarrow> \<forall>c\<in>set s. is_digit c \<Longrightarrow> digits_us s"
  by (induction s rule: digits_us.induct) (auto dest: digit_not_sign)

lemma dec_val_snoc: "is_digit c \<Longrightarrow> dec_val (s @ [c]) = 10 * dec_val s + digit_val c"
  by (simp add: dec_val_def)

lemma dec_val_single: "is_digit c \<Longrightarrow> dec_val [c] = digit_val c"
  by (simp add: dec_val_def)

lemma dec_val_str_nat: "dec_val (str_nat n) = n"
proof (induction n rule: str_nat.induct)
  case (1 n)
  show ?case
  proof (cases "n < 10")
    case True
    then show ?thesis
      by (simp add: str_nat.simps [of n] dec_val_single is_digit_digit_char digit_val_digit_char)
  next
    case False
    then show ?thesis using "1.IH"
      by (simp add: str_nat.simps [of n] dec_val_snoc is_digit_digit_char digit_val_digit_char)
  qed
qed

lemma py_int_str_nat: "py_int (str_nat n) = Some (int n)"
  using str_nat_digits [of _ n] str_nat_nonempty [of n]
  by (simp add: py_int_def trim_blank_digits split_sign_digits digits_us_digits dec_val_str_nat)

lemma py_int_str_int: "0 \<le> i \<Longrightarrow> py_int (str_int i) = Some i"
  by (simp add: str_int_def py_int_str_nat)

lemma str_int_inj: "0 \<le> i \<Longrightarrow> 0 \<le> j \<Longrightarrow> str_int i = str_int j \<Longrightarrow> i = j"
  by (metis py_int_str_int option.inject)


subsection \<open>Identifiers\<close>

lemma map_filter_append: "List.map_filter f (xs @ ys) = List.map_filter f xs @ List.map_filter f ys"
  by (simp add: List.map_filter_def)

lemma map_filter_map: "List.map_filter f (map g xs) = List.map_filter (f \<circ> g) xs"
  by (simp add: List.map_filter_def filter_map comp_def)

lemma ids_iter_list:
  "List.map_filter (\<lambda>(p, x). el_get x ''Id'') (iter_list cs i) = concat (map id_values cs)"
proof (induction cs arbitrary: i)
  case Nil
  then show ?case by (simp add: List.map_filter_def)
next
  case (Cons c cs)
  have "(\<lambda>(p, x). el_get x ''Id'') \<circ> (\<lambda>(p, x). (i # p, x)) = (\<lambda>(p, x). el_get x ''Id'')"
    by (auto simp: fun_eq_iff)
  then show ?case using Cons
    by (simp add: map_filter_append map_filter_map id_values_def)
qed

lemma id_values_Elem:
  "id_values (Elem t a cs) =
     (case map_of a ''Id'' of None \<Rightarrow> [] | Some v \<Rightarrow> [v]) @ concat (map id_values cs)"
proof -
  have "id_values (Elem t a cs) =
      List.map_filter (\<lambda>(p, x). el_get x ''Id'') (([], Elem t a cs) # iter_list cs 0)"
    by (simp add: id_values_def)
  also have "\<dots> = (case map_of a ''Id'' of None \<Rightarrow> [] | Some v \<Rightarrow> [v]) @
      List.map_filter (\<lambda>(p, x). el_get x ''Id'') (iter_list cs 0)"
    by (simp add: List.map_filter_simps el_get_def split: option.split)
  finally show ?thesis by (simp add: ids_iter_list)
qed

lemma id_values_el_set: "k \<noteq> ''Id'' \<Longrightarrow> id_values (el_set k v e) = id_values e"
  by (cases e) (simp add: el_set_def id_values_Elem update_conv)

lemma id_values_update_at:
  "(\<And>x. subtree e p = Some x \<Longrightarrow> id_values (f x) = id_values x) \<Longrightarrow>
   id_values (update_at p f e) = id_values e"
proof (induction p arbitrary: e)
  case Nil
  then show ?case by simp
next
  case (Cons i p)
  show ?case
  proof (cases e)
    case (Elem t a cs)
    show ?thesis
    proof (cases "i < length cs")
      case True
      have "id_values (update_at p f (cs ! i)) = id_values (cs ! i)"
        using Cons.prems Elem True by (intro Cons.IH) simp
      then have "map id_values (cs[i := update_at p f (cs ! i)]) = map id_values cs"
        by (simp add: map_update list_update_same_conv True)
      then show ?thesis using Elem True by (simp add: id_values_Elem)
    next
      case False
      then show ?thesis using Elem by simp
    qed
  qed
qed

lemma mset_concat_update:
  "i < length cs \<Longrightarrow>
   mset (concat (map g (cs[i := c']))) + mset (g (cs ! i)) = mset (concat (map g cs)) + mset (g c')"
proof (induction cs arbitrary: i)
  case Nil
  then show ?case by simp
next
  case (Cons c cs)
  then show ?case by (cases i) (auto simp: ac_simps)
qed

lemma mset_ids_update_at:
  "subtree e p = Some x \<Longrightarrow>
   mset (id_values (update_at p f e)) + mset (id_values x) =
   mset (id_values e) + mset (id_values (f x))"
proof (induction p arbitrary: e)
  case Nil
  then show ?case by simp
next
  case (Cons i p)
  show ?case
  proof (cases e)
    case (Elem t a cs)
    with Cons.prems have i: "i < length cs" and sub: "subtree (cs ! i) p = Some x"
      by (auto split: if_splits)
    let ?c' = "update_at p f (cs ! i)"
    let ?own = "mset (case map_of a ''Id'' of None \<Rightarrow> [] | Some v \<Rightarrow> [v])"
    have IH: "mset (id_values ?c') + mset (id_values x) =
        mset (id_values (cs ! i)) + mset (id_values (f x))"
      using sub by (rule Cons.IH)
    have up: "mset (concat (map id_values (cs[i := ?c']))) + mset (id_values (cs ! i)) =
        mset (concat (map id_values cs)) + mset (id_values ?c')"
      using i by (rule mset_concat_update)
    have "mset (concat (map id_values (cs[i := ?c']))) + mset (id_values x) + mset (id_values (cs ! i)) =
        mset (concat (map id_values cs)) + mset (id_values (f x)) + mset (id_values (cs ! i))"
      using IH up by (metis (no_types, lifting) add.assoc add.commute)
    then have "mset (concat (map id_values (cs[i := ?c']))) + mset (id_values x) =
        mset (concat (map id_values cs)) + mset (id_values (f x))"
      by simp
    then have "?own + (mset (concat (map id_values (cs[i := ?c']))) + mset (id_values x)) =
        ?own + (mset (concat (map id_values cs)) + mset (id_values (f x)))"
      by simp
    then show ?thesis using Elem i by (simp add: id_values_Elem add.assoc)
  qed
qed

lemma concat_take_drop:
  "concat (map g cs) = concat (map g (take k cs)) @ concat (map g (drop k cs))"
  by (metis append_take_drop_id concat_append map_append)

lemma mset_ids_insert:
  "mset (id_values (el_insert_at k new e)) = mset (id_values e) + mset (id_values new)"
proof (cases e)
  case (Elem t a cs)
  let ?own = "case map_of a ''Id'' of None \<Rightarrow> [] | Some v \<Rightarrow> [v]"
  let ?A = "concat (map id_values (take k cs))"
  let ?B = "concat (map id_values (drop k cs))"
  have 1: "id_values e = ?own @ ?A @ ?B"
    unfolding Elem id_values_Elem concat_take_drop [of id_values cs k] ..
  have 2: "id_values (el_insert_at k new e) = ?own @ ?A @ id_values new @ ?B"
    unfolding Elem el_insert_at_def id_values_Elem by simp
  show ?thesis unfolding 1 2 by simp
qed

lemma upt_map_split:
  "map f [0..<a + b] = map f [0..<a] @ map (\<lambda>j. f (a + j)) [0..<b]"
proof -
  have 1: "[0..<a + b] = [0..<a] @ [a..<a + b]"
    by (rule upt_add_eq_append) simp
  have "map (\<lambda>j. a + j) [0..<b] = map (\<lambda>j. j + a) [0..<b]"
    by (simp only: add.commute)
  also have "\<dots> = [a..<b + a]" by (rule map_add_upt)
  also have "\<dots> = [a..<a + b]" by (simp only: add.commute)
  finally have 2: "[a..<a + b] = map (\<lambda>j. a + j) [0..<b]" by (rule sym)
  have "map f [0..<a + b] = map f [0..<a] @ map f (map (\<lambda>j. a + j) [0..<b])"
    unfolding 1 map_append 2 [symmetric] ..
  then show ?thesis by (simp only: map_map comp_def)
qed

lemma remap_ids_values:
  "id_values (fst (remap_ids e n)) =
     map (\<lambda>j. str_int (n + int j)) [0..<length (id_values e)] \<and>
   snd (remap_ids e n) = n + int (length (id_values e)) \<and>
   skeleton (fst (remap_ids e n)) = skeleton e"
  "concat (map id_values (fst (remap_ids_list cs n))) =
     map (\<lambda>j. str_int (n + int j)) [0..<length (concat (map id_values cs))] \<and>
   snd (remap_ids_list cs n) = n + int (length (concat (map id_values cs))) \<and>
   map skeleton (fst (remap_ids_list cs n)) = map skeleton cs"
proof (induction e n and cs n rule: remap_ids_remap_ids_list.induct)
  case (1 t a cs next_id)
  show ?case
  proof (cases "has_attr (Elem t a cs) ''Id''")
    case True
    then obtain v where v: "map_of a ''Id'' = Some v"
      by (auto simp: has_attr_def el_get_def)
    obtain cs' n' where r: "remap_ids_list cs (next_id + 1) = (cs', n')" by fastforce
    from "1.IH"(1) [OF True] r have
      "concat (map id_values cs') =
         map (\<lambda>j. str_int (next_id + 1 + int j)) [0..<length (concat (map id_values cs))]"
      "n' = next_id + 1 + int (length (concat (map id_values cs)))"
      "map skeleton cs' = map skeleton cs"
      by simp_all
    then show ?thesis using True v r
      by (simp add: id_values_Elem update_conv map_upt_Suc ac_simps del: upt_Suc)
  next
    case False
    then have v: "map_of a ''Id'' = None"
      by (auto simp: has_attr_def el_get_def)
    obtain cs' n' where r: "remap_ids_list cs next_id = (cs', n')" by fastforce
    from "1.IH"(2) [OF False] r have
      "concat (map id_values cs') =
         map (\<lambda>j. str_int (next_id + int j)) [0..<length (concat (map id_values cs))]"
      "n' = next_id + int (length (concat (map id_values cs)))"
      "map skeleton cs' = map skeleton cs"
      by simp_all
    then show ?thesis using False v r by (simp add: id_values_Elem)
  qed
next
  case (2 next_id)
  then show ?case by simp
next
  case (3 c cs next_id)
  obtain c' n where rc: "remap_ids c next_id = (c', n)" by fastforce
  obtain cs' n' where rcs: "remap_ids_list cs n = (cs', n')" by fastforce
  from "3.IH"(1) rc have c:
    "id_values c' = map (\<lambda>j. str_int (next_id + int j)) [0..<length (id_values c)]"
    "n = next_id + int (length (id_values c))" "skeleton c' = skeleton c"
    by simp_all
  from "3.IH"(2) [OF rc [symmetric]] rcs have cs:
    "concat (map id_values cs') =
       map (\<lambda>j. str_int (n + int j)) [0..<length (concat (map id_values cs))]"
    "n' = n + int (length (concat (map id_values cs)))" "map skeleton cs' = map skeleton cs"
    by simp_all
  show ?case using rc rcs c cs
    by (simp add: upt_map_split ac_simps)
qed


lemma iter_el_subtree:
  "(p, x) \<in> set (iter_el e) \<Longrightarrow> subtree e p = Some x"
  "(p, x) \<in> set (iter_list cs i) \<Longrightarrow>
     \<exists>j q. p = (i + j) # q \<and> j < length cs \<and> subtree (cs ! j) q = Some x"
proof (induction e and cs i arbitrary: p x and p x rule: iter_el_iter_list.induct)
  case (1 t a cs)
  then show ?case by fastforce
next
  case (2 i)
  then show ?case by simp
next
  case (3 c cs i)
  from "3.prems" consider
    (hd) q where "p = i # q" "(q, x) \<in> set (iter_el c)" |
    (tl) "(p, x) \<in> set (iter_list cs (Suc i))"
    by auto
  then show ?case
  proof cases
    case hd
    then have "subtree c q = Some x" using "3.IH"(1) by blast
    with hd show ?thesis by (intro exI [of _ 0] exI [of _ q]) simp
  next
    case tl
    from "3.IH"(2) [OF this] obtain j q where
      "p = (Suc i + j) # q" "j < length cs" "subtree (cs ! j) q = Some x" by blast
    then show ?thesis by (intro exI [of _ "Suc j"] exI [of _ q]) simp
  qed
qed

lemma first_some_Some: "first_some f xs = Some y \<Longrightarrow> \<exists>x\<in>set xs. f x = Some y"
  by (induction xs) (auto split: option.splits)

lemma find_desc_subtree:
  assumes "find_desc e s ss = Some (p, x)"
  shows "subtree e p = Some x"
proof -
  from assms obtain q a where qa: "(q, a) \<in> set (tl (iter_el e))"
    and f: "(if tag a = s
             then (case find_path a ss of Some (r, y) \<Rightarrow> Some (q @ r, y) | None \<Rightarrow> None)
             else None) = Some (p, x)"
    unfolding find_desc_def by (fastforce dest!: first_some_Some)
  from f obtain r where r: "find_path a ss = Some (r, x)" "p = q @ r"
    by (auto split: if_splits option.splits)
  have "(q, a) \<in> set (iter_el e)" using qa by (cases "iter_el e") auto
  then have "subtree e q = Some a" by (rule iter_el_subtree(1))
  moreover have "subtree a r = Some x" using r(1) by (rule find_path_subtree(1))
  ultimately show ?thesis using r(2) by (simp add: subtree_append)
qed

lemma py_nth_in_set: "py_nth xs i = Inr x \<Longrightarrow> x \<in> set xs"
  by (auto simp: py_nth_def split: if_splits)

lemma track_list_subtree:
  "(i, t) \<in> set (enumerate 0 (track_list d)) \<Longrightarrow> subtree (root d) (tracks_el d @ [i]) = Some t"
  by (auto simp: track_list_def in_set_enumerate_eq subtree_append split: option.splits)

lemma resolve_track_master:
  "upper (track_name c) = ''MASTER'' \<or> upper (track_name c) = ''MAIN'' \<Longrightarrow>
   resolve_track d c =
     (case find_desc (root d) ''LiveSet'' [''MainTrack''] of
        Some t \<Rightarrow> Done t
      | None \<Rightarrow>
          (case find_desc (root d) ''LiveSet'' [''MasterTrack''] of
             Some t \<Rightarrow> Done t
           | None \<Rightarrow> Failed ''ERROR: Could not find Main/Master track''))"
  unfolding resolve_track_def by (simp only: if_True)

lemma resolve_track_return:
  "\<not> (upper (track_name c) = ''MASTER'' \<or> upper (track_name c) = ''MAIN'') \<Longrightarrow>
   startswith (upper (track_name c)) ''RETURN:'' \<Longrightarrow>
   resolve_track d c =
     (case List.find
             (\<lambda>(i, t). tag t = ''ReturnTrack'' \<and>
                (case find_desc t ''Name'' [''EffectiveName''] of
                   None \<Rightarrow> False
                 | Some (p, name_el) \<Rightarrow>
                     contains (el_get_or name_el ''Value'' []) (drop 7 (track_name c))))
             (enumerate 0 (track_list d)) of
        Some (i, t) \<Rightarrow> Done (tracks_el d @ [i], t)
      | None \<Rightarrow>
          Failed (''ERROR: Could not find return track '' @ quote @ drop 7 (track_name c) @ quote))"
  unfolding resolve_track_def by (simp only: if_True if_False Let_def)

lemma resolve_track_name:
  "\<not> (upper (track_name c) = ''MASTER'' \<or> upper (track_name c) = ''MAIN'') \<Longrightarrow>
   \<not> startswith (upper (track_name c)) ''RETURN:'' \<Longrightarrow>
   resolve_track d c =
     (let matches = find_tracks_by_name (track_list d) (track_name c) (track_type c)
      in if matches = [] then
           Failed (''ERROR: Could not find track '' @ quote @ track_name c @ quote)
         else if int (length matches) \<le> track_index c then
           Failed (''ERROR: Track '' @ quote @ track_name c @ quote @ '' index '' @
                   str_int (track_index c) @ '' out of range (found '' @
                   str_nat (length matches) @ '')'')
         else
           (case py_nth matches (track_index c) of
              Inl e \<Rightarrow> Raised e
            | Inr (i, t) \<Rightarrow> Done (tracks_el d @ [i], t)))"
  unfolding resolve_track_def by (simp only: if_False)

lemma is_error_prefix: "is_error (''ERROR: '' @ s)"
  unfolding is_error_def startswith_def by simp

lemma is_error_master: "is_error ''ERROR: Could not find Main/Master track''"
  unfolding is_error_def startswith_def by simp

lemma is_error_return: "is_error (''ERROR: Could not find return track '' @ s)"
  unfolding is_error_def startswith_def by simp

lemma is_error_track: "is_error (''ERROR: Could not find track '' @ s)"
  unfolding is_error_def startswith_def by simp

lemma is_error_index: "is_error (''ERROR: Track '' @ s)"
  unfolding is_error_def startswith_def by simp

lemma resolve_track_subtree:
  assumes "resolve_track d c = Done (tp, t)"
  shows "subtree (root d) tp = Some t"
proof -
  consider (master) "upper (track_name c) = ''MASTER'' \<or> upper (track_name c) = ''MAIN''"
    | (return) "\<not> (upper (track_name c) = ''MASTER'' \<or> upper (track_name c) = ''MAIN'')"
        "startswith (upper (track_name c)) ''RETURN:''"
    | (name) "\<not> (upper (track_name c) = ''MASTER'' \<or> upper (track_name c) = ''MAIN'')"
        "\<not> startswith (upper (track_name c)) ''RETURN:''"
    by blast
  then show ?thesis
  proof cases
    case master
    from assms have "find_desc (root d) ''LiveSet'' [''MainTrack''] = Some (tp, t) \<or>
        find_desc (root d) ''LiveSet'' [''MasterTrack''] = Some (tp, t)"
      unfolding resolve_track_master [OF master] by (simp split: option.splits)
    then show ?thesis using find_desc_subtree by blast
  next
    case return
    from assms obtain i where
      "List.find
             (\<lambda>(i, t). tag t = ''ReturnTrack'' \<and>
                (case find_desc t ''Name'' [''EffectiveName''] of
                   None \<Rightarrow> False
                 | Some (p, name_el) \<Rightarrow>
                     contains (el_get_or name_el ''Value'' []) (drop 7 (track_name c))))
             (enumerate 0 (track_list d)) = Some (i, t)" and tp: "tp = tracks_el d @ [i]"
      unfolding resolve_track_return [OF return] by (auto split: option.splits)
    then have "(i, t) \<in> set (enumerate 0 (track_list d))"
      unfolding find_Some_iff by (metis nth_mem)
    then show ?thesis using track_list_subtree tp by blast
  next
    case name
    let ?matches = "find_tracks_by_name (track_list d) (track_name c) (track_type c)"
    from assms obtain i where "py_nth ?matches (track_index c) = Inr (i, t)"
      and tp: "tp = tracks_el d @ [i]"
      unfolding resolve_track_name [OF name] Let_def
      by (auto split: if_splits sum.splits)
    then have "(i, t) \<in> set ?matches" by (intro py_nth_in_set)
    then have "(i, t) \<in> set (enumerate 0 (track_list d))"
      unfolding find_tracks_by_name_def by simp
    then show ?thesis using track_list_subtree tp by blast
  qed
qed

lemma resolve_track_failed:
  assumes "resolve_track d c = Failed msg"
  shows "is_error msg"
proof -
  consider (master) "upper (track_name c) = ''MASTER'' \<or> upper (track_name c) = ''MAIN''"
    | (return) "\<not> (upper (track_name c) = ''MASTER'' \<or> upper (track_name c) = ''MAIN'')"
        "startswith (upper (track_name c)) ''RETURN:''"
    | (name) "\<not> (upper (track_name c) = ''MASTER'' \<or> upper (track_name c) = ''MAIN'')"
        "\<not> startswith (upper (track_name c)) ''RETURN:''"
    by blast
  then show ?thesis
  proof cases
    case master
    from assms have "msg = ''ERROR: Could not find Main/Master track''"
      unfolding resolve_track_master [OF master] by (simp split: option.splits)
    then show ?thesis using is_error_master by simp
  next
    case return
    from assms have
      "msg = ''ERROR: Could not find return track '' @ quote @ drop 7 (track_name c) @ quote"
      unfolding resolve_track_return [OF return] by (simp split: option.splits prod.splits)
    then show ?thesis using is_error_return by simp
  next
    case name
    from assms have
      "msg = ''ERROR: Could not find track '' @ quote @ track_name c @ quote \<or>
       msg = ''ERROR: Track '' @ quote @ track_name c @ quote @ '' index '' @
                   str_int (track_index c) @ '' out of range (found '' @
                   str_nat (length (find_tracks_by_name (track_list d) (track_name c)
                     (track_type c))) @ '')''"
      unfolding resolve_track_name [OF name] Let_def
      by (simp split: if_splits sum.splits prod.splits)
    then show ?thesis using is_error_track is_error_index by metis
  qed
qed


lemma foldl_max_id_ge:
  fixes g :: "int \<Rightarrow> 'a \<Rightarrow> int"
  assumes "\<And>m x. m \<le> g m x"
  shows "m \<le> foldl g m xs"
proof (induction xs arbitrary: m)
  case Nil
  then show ?case by simp
next
  case (Cons x xs)
  have "m \<le> g m x" by (rule assms)
  also have "\<dots> \<le> foldl g (g m x) xs" by (rule Cons.IH)
  finally show ?case by simp
qed

lemma foldl_max_id_bound:
  fixes g :: "int \<Rightarrow> 'a \<Rightarrow> int"
  assumes mono: "\<And>m x. m \<le> g m x" and hit: "\<And>m. n \<le> g m x" and mem: "x \<in> set xs"
  shows "n \<le> foldl g m xs"
  using mem
proof (induction xs arbitrary: m)
  case Nil
  then show ?case by simp
next
  case (Cons y ys)
  show ?case
  proof (cases "x = y")
    case True
    have "n \<le> g m y" using hit True by simp
    also have "\<dots> \<le> foldl g (g m y) ys" using mono by (rule foldl_max_id_ge)
    finally show ?thesis by simp
  next
    case False
    then have "x \<in> set ys" using Cons.prems by simp
    then show ?thesis using Cons.IH by simp
  qed
qed

lemma find_max_id_nonneg: "0 \<le> find_max_id r"
  unfolding find_max_id_def
  by (rule foldl_max_id_ge) (auto split: option.splits)

lemma find_max_id_bound:
  assumes "(p, x) \<in> set (iter_el r)" and "el_get x ''Id'' = Some v" and "py_int v = Some n"
  shows "n \<le> find_max_id r"
  unfolding find_max_id_def
proof (rule foldl_max_id_bound [where x = "(p, x)"])
  show "(p, x) \<in> set (iter_el r)" by (rule assms(1))
qed (use assms(2,3) in \<open>auto split: option.splits\<close>)

lemma id_values_mem:
  "v \<in> set (id_values r) \<Longrightarrow> \<exists>p x. (p, x) \<in> set (iter_el r) \<and> el_get x ''Id'' = Some v"
  unfolding id_values_def List.map_filter_def by fastforce

text \<open>No identifier of the document is the text of a number above the maximum.\<close>

lemma fresh_above_max:
  assumes "v \<in> set (id_values r)" and "find_max_id r < n"
  shows "v \<noteq> str_int n"
proof
  assume eq: "v = str_int n"
  from assms(1) obtain p x where px: "(p, x) \<in> set (iter_el r)" "el_get x ''Id'' = Some v"
    using id_values_mem by blast
  have "0 \<le> n" using assms(2) find_max_id_nonneg [of r] by linarith
  then have "py_int v = Some n" unfolding eq by (rule py_int_str_int)
  with px have "n \<le> find_max_id r" by (rule find_max_id_bound)
  with assms(2) show False by simp
qed

lemma distinct_new_ids:
  assumes "0 \<le> m"
  shows "distinct (map (\<lambda>j. str_int (m + int j)) [0..<k])"
proof -
  have "inj_on (\<lambda>j. str_int (m + int j)) (set [0..<k])"
  proof (rule inj_onI)
    fix a b
    assume "str_int (m + int a) = str_int (m + int b)"
    then have "m + int a = m + int b"
      using assms by (intro str_int_inj) auto
    then show "a = b" by simp
  qed
  then show ?thesis by (simp add: distinct_map)
qed

subsection \<open>Writes of a \<^verbatim>\<open>Value\<close> keep identifiers and shape\<close>

lemma set_if_found_keeps:
  "id_values (set_if_found path v e) = id_values e"
  "skeleton (set_if_found path v e) = skeleton e"
  unfolding set_if_found_def
  by (auto split: option.splits intro!: id_values_update_at id_values_el_set skeleton_update_at)

lemma fold_keeps:
  assumes "\<And>x e. h (f x e) = h e"
  shows "h (fold f xs e) = h e"
  by (induction xs arbitrary: e) (simp_all add: assms)

lemma reset_band_keeps:
  "id_values (reset_band i ps e) = id_values e"
  "skeleton (reset_band i ps e) = skeleton e"
  unfolding reset_band_def Let_def by (simp_all only: set_if_found_keeps)

lemma reset_eq8_keeps:
  "id_values (reset_eq8_defaults e) = id_values e"
  "skeleton (reset_eq8_defaults e) = skeleton e"
  unfolding reset_eq8_defaults_def
  by (rule fold_keeps, rule fold_keeps, rule reset_band_keeps)+

lemma reset_compressor_keeps:
  "id_values (reset_compressor_defaults sf e) = id_values e"
  "skeleton (reset_compressor_defaults sf e) = skeleton e"
  unfolding reset_compressor_defaults_def
  by (rule fold_keeps, simp add: set_if_found_keeps split: prod.splits)+

lemma device_resetters_keeps:
  assumes "device_resetters sf dtag = Some r"
  shows "id_values (r e) = id_values e" and "skeleton (r e) = skeleton e"
  using assms unfolding device_resetters_def
  by (auto simp: reset_eq8_keeps reset_compressor_keeps split: if_splits)

lemma prepare_clone_ids:
  "id_values (prepare_clone sf r dtag donor) =
     map (\<lambda>j. str_int (find_max_id r + 1 + int j)) [0..<length (id_values donor)]"
  "skeleton (prepare_clone sf r dtag donor) = skeleton donor"
  unfolding prepare_clone_def Let_def
  by (cases "device_resetters sf dtag";
      simp add: set_if_found_keeps device_resetters_keeps remap_ids_values)+

lemma set_param_value_keeps:
  "id_values (fst (set_param_value sf e name v)) = id_values e"
  "skeleton (fst (set_param_value sf e name v)) = skeleton e"
  unfolding set_param_value_def Let_def
  by (auto split: option.splits prod.splits
      intro!: id_values_update_at id_values_el_set skeleton_update_at)

lemma apply_params_Cons:
  "apply_params sf dtag tname ((param_path, param_val) # ps) dev = r \<Longrightarrow>
   (\<exists>e. r = Raised e) \<or>
   (\<exists>actual. \<not> snd (set_param_value sf dev param_path actual) \<and>
      r = Failed (''ERROR: Could not set param '' @ quote @ param_path @ quote @
                  '' on new '' @ dtag @ '' for '' @ quote @ tname @ quote)) \<or>
   (\<exists>actual. snd (set_param_value sf dev param_path actual) \<and>
      r = apply_params sf dtag tname ps (fst (set_param_value sf dev param_path actual)))"
proof -
  assume a: "apply_params sf dtag tname ((param_path, param_val) # ps) dev = r"
  define conv where "conv =
    (if is_db_linear dtag param_path
     then (case to_float param_val of
             Inl e \<Rightarrow> Inl e
           | Inr x \<Rightarrow>
               (case db_to_linear (PFloat x) of Inl e \<Rightarrow> Inl e | Inr y \<Rightarrow> Inr (PFloat y)))
     else Inr param_val)"
  have r: "r = (case conv of
        Inl e \<Rightarrow> Raised e
      | Inr actual_val \<Rightarrow>
          (case set_param_value sf dev param_path actual_val of
             (new_device', success) \<Rightarrow>
               if success then apply_params sf dtag tname ps new_device'
               else Failed (''ERROR: Could not set param '' @ quote @ param_path @ quote @
                            '' on new '' @ dtag @ '' for '' @ quote @ tname @ quote)))"
    using a unfolding conv_def by (simp only: apply_params.simps)
  show ?thesis
  proof (cases conv)
    case (Inl e)
    then show ?thesis using r by simp
  next
    case (Inr actual)
    obtain nd success where s: "set_param_value sf dev param_path actual = (nd, success)"
      by fastforce
    show ?thesis
    proof (cases success)
      case True
      then have "snd (set_param_value sf dev param_path actual) \<and>
          r = apply_params sf dtag tname ps (fst (set_param_value sf dev param_path actual))"
        using r Inr s by simp
      then show ?thesis by blast
    next
      case False
      then have "\<not> snd (set_param_value sf dev param_path actual) \<and>
          r = Failed (''ERROR: Could not set param '' @ quote @ param_path @ quote @
                  '' on new '' @ dtag @ '' for '' @ quote @ tname @ quote)"
        using r Inr s by simp
      then show ?thesis by blast
    qed
  qed
qed

lemma apply_params_keeps:
  "apply_params sf dtag tname ps dev = Done dev' \<Longrightarrow>
   id_values dev' = id_values dev \<and> skeleton dev' = skeleton dev"
proof (induction ps arbitrary: dev)
  case Nil
  then show ?case by simp
next
  case (Cons pv ps)
  obtain param_path param_val where pv: "pv = (param_path, param_val)" by fastforce
  from apply_params_Cons [OF Cons.prems [unfolded pv]] obtain actual where
    step: "apply_params sf dtag tname ps (fst (set_param_value sf dev param_path actual)) = Done dev'"
    by auto
  from Cons.IH [OF step] show ?case by (simp add: set_param_value_keeps)
qed

lemma apply_params_failed: "apply_params sf dtag tname ps dev = Failed msg \<Longrightarrow> is_error msg"
proof (induction ps arbitrary: dev)
  case Nil
  then show ?case by simp
next
  case (Cons pv ps)
  obtain param_path param_val where pv: "pv = (param_path, param_val)" by fastforce
  from apply_params_Cons [OF Cons.prems [unfolded pv]] consider
    (here) "msg = ''ERROR: Could not set param '' @ quote @ param_path @ quote @
                  '' on new '' @ dtag @ '' for '' @ quote @ tname @ quote"
    | (later) dev1 where "apply_params sf dtag tname ps dev1 = Failed msg"
    by auto
  then show ?case
  proof cases
    case here
    have "is_error (''ERROR: '' @ ''Could not set param '' @ quote @ param_path @ quote @
                  '' on new '' @ dtag @ '' for '' @ quote @ tname @ quote)"
      by (rule is_error_prefix)
    then show ?thesis unfolding here by simp
  next
    case later
    then show ?thesis by (rule Cons.IH)
  qed
qed


subsection \<open>The branch \<^verbatim>\<open>add_device\<close>\<close>

lemma not_error_indented: "\<not> is_error (''  '' @ s)"
  unfolding is_error_def startswith_def by simp

text \<open>What the branch comes to when it returns: an error and the document as it was, or
  the prepared clone, with the requested parameters applied, spliced into the device
  chain of the track.\<close>

lemma change_add_device_cases:
  assumes "change_add_device sf d tp track_el c = Inr (d', msgs)"
  shows "(d' = d \<and> (\<exists>m. msgs = [m] \<and> is_error m)) \<or>
     (\<exists>donor_pos donor new_device vp devices_el m.
        find_donor_device (root d) (device_tag c) = Some (donor_pos, donor) \<and>
        apply_params sf (device_tag c) (track_name c) (params c)
          (prepare_clone sf (root d) (device_tag c) donor) = Done new_device \<and>
        find_path track_el [''DeviceChain'', ''DeviceChain'', ''Devices''] = Some (vp, devices_el) \<and>
        d' = \<lparr>root = update_at (tp @ vp)
                     (el_insert_at
                        (if position c = - 1 \<or> int (length (children devices_el)) \<le> position c
                         then length (children devices_el)
                         else insert_index (length (children devices_el)) (position c))
                        new_device)
                     (root d),
              tracks_el = shift_pos (tp @ vp)
                     (if position c = - 1 \<or> int (length (children devices_el)) \<le> position c
                      then length (children devices_el)
                      else insert_index (length (children devices_el)) (position c))
                     (tracks_el d)\<rparr> \<and>
        msgs = [m] \<and> \<not> is_error m)"
proof (cases "find_donor_device (root d) (device_tag c)")
  case None
  then have "d' = d" "msgs = [''ERROR: '' @ ''No existing '' @ quote @ device_tag c @ quote @
                   '' found in project to use as template'']"
    using assms unfolding change_add_device_def by simp_all
  then show ?thesis using is_error_prefix by blast
next
  case (Some dd)
  obtain donor_pos donor where dd: "dd = (donor_pos, donor)" by fastforce
  let ?ap = "apply_params sf (device_tag c) (track_name c) (params c)
          (prepare_clone sf (root d) (device_tag c) donor)"
  show ?thesis
  proof (cases ?ap)
    case (Raised e)
    then show ?thesis using assms Some dd unfolding change_add_device_def by simp
  next
    case (Failed msg)
    then have "d' = d" "msgs = [msg]"
      using assms Some dd unfolding change_add_device_def by simp_all
    then show ?thesis using apply_params_failed [OF Failed] by blast
  next
    case (Done new_device)
    show ?thesis
    proof (cases "find_path track_el [''DeviceChain'', ''DeviceChain'', ''Devices'']")
      case None
      then have "d' = d" "msgs = [''ERROR: '' @ ''No device chain found on track '' @ quote @
          track_name c @ quote]"
        using assms Some dd Done unfolding change_add_device_def by simp_all
      then show ?thesis using is_error_prefix by blast
    next
      case (Some vd)
      obtain vp devices_el where vd: "vd = (vp, devices_el)" by fastforce
      have "\<exists>s. d' = \<lparr>root = update_at (tp @ vp)
                     (el_insert_at
                        (if position c = - 1 \<or> int (length (children devices_el)) \<le> position c
                         then length (children devices_el)
                         else insert_index (length (children devices_el)) (position c))
                        new_device)
                     (root d),
              tracks_el = shift_pos (tp @ vp)
                     (if position c = - 1 \<or> int (length (children devices_el)) \<le> position c
                      then length (children devices_el)
                      else insert_index (length (children devices_el)) (position c))
                     (tracks_el d)\<rparr> \<and> msgs = [''  '' @ s]"
        using assms \<open>find_donor_device (root d) (device_tag c) = Some dd\<close> dd Done Some vd
        unfolding change_add_device_def Let_def by (simp; blast)
      then show ?thesis
        using \<open>find_donor_device (root d) (device_tag c) = Some dd\<close> dd Done Some vd
          not_error_indented by blast
    qed
  qed
qed


lemma apply_change_add_device:
  "target c = ''add_device'' \<Longrightarrow>
   apply_change sf d c =
     (case resolve_track d c of
        Raised e \<Rightarrow> Inl e
      | Failed msg \<Rightarrow> Inr (d, [msg])
      | Done (tp, track_el) \<Rightarrow> change_add_device sf d tp track_el c)"
  unfolding apply_change_def by (simp split: res.split prod.split)

lemma insert_index_le: "insert_index n i \<le> n"
  unfolding insert_index_def by auto

subsection \<open>C1: identifiers stay unique when a device is inserted\<close>

text \<open>
  C1: in a document whose \<^verbatim>\<open>Id\<close> values are pairwise different, every \<^verbatim>\<open>add_device\<close>
  request that returns leaves them pairwise different. Either the request fails with an
  error message and the document is as it was, or a clone of the donor went into the
  children of an element of the document: the clone has the donor's tags and carries an
  \<^verbatim>\<open>Id\<close> on the same elements, and its \<^verbatim>\<open>Id\<close> values, read in document order, are the
  document-wide maximum plus one, plus two, and so on.
\<close>

theorem add_device_ids_unique:
  assumes uniq: "distinct (id_values (root d))"
    and tgt: "target c = ''add_device''"
    and run: "apply_change sf d c = Inr (d', msgs)"
  shows "distinct (id_values (root d')) \<and>
     ((d' = d \<and> (\<exists>m. msgs = [m] \<and> is_error m)) \<or>
      (\<exists>donor_pos donor devices_pos devices_el k new_device m.
         find_donor_device (root d) (device_tag c) = Some (donor_pos, donor) \<and>
         subtree (root d) devices_pos = Some devices_el \<and> k \<le> length (children devices_el) \<and>
         root d' = update_at devices_pos (el_insert_at k new_device) (root d) \<and>
         skeleton new_device = skeleton donor \<and>
         id_values new_device =
           map (\<lambda>j. str_int (find_max_id (root d) + 1 + int j)) [0..<length (id_values donor)] \<and>
         msgs = [m] \<and> \<not> is_error m))"
proof (cases "resolve_track d c")
  case (Raised e)
  then show ?thesis using run unfolding apply_change_add_device [OF tgt] by simp
next
  case (Failed msg)
  then have "d' = d" "msgs = [msg]"
    using run unfolding apply_change_add_device [OF tgt] by simp_all
  then show ?thesis using uniq resolve_track_failed [OF Failed] by blast
next
  case (Done tt)
  obtain tp track_el where tt: "tt = (tp, track_el)" by fastforce
  have sub_t: "subtree (root d) tp = Some track_el"
    using Done tt resolve_track_subtree by blast
  have br: "change_add_device sf d tp track_el c = Inr (d', msgs)"
    using run Done tt unfolding apply_change_add_device [OF tgt] by simp
  from change_add_device_cases [OF br] show ?thesis
  proof (elim disjE exE conjE)
    fix m
    assume "d' = d" "msgs = [m]" "is_error m"
    then show ?thesis using uniq by blast
  next
    fix donor_pos donor new_device vp devices_el m
    let ?k = "if position c = - 1 \<or> int (length (children devices_el)) \<le> position c
              then length (children devices_el)
              else insert_index (length (children devices_el)) (position c)"
    let ?news = "map (\<lambda>j. str_int (find_max_id (root d) + 1 + int j))
                   [0..<length (id_values donor)]"
    assume donor: "find_donor_device (root d) (device_tag c) = Some (donor_pos, donor)"
      and ap: "apply_params sf (device_tag c) (track_name c) (params c)
          (prepare_clone sf (root d) (device_tag c) donor) = Done new_device"
      and fp: "find_path track_el [''DeviceChain'', ''DeviceChain'', ''Devices''] =
          Some (vp, devices_el)"
      and d': "d' = \<lparr>root = update_at (tp @ vp) (el_insert_at ?k new_device) (root d),
              tracks_el = shift_pos (tp @ vp) ?k (tracks_el d)\<rparr>"
      and m: "msgs = [m]" "\<not> is_error m"
    have sub_d: "subtree (root d) (tp @ vp) = Some devices_el"
      using sub_t find_path_subtree(1) [OF fp] by (simp add: subtree_append)
    have k: "?k \<le> length (children devices_el)"
      using insert_index_le by simp
    have new: "id_values new_device = ?news" "skeleton new_device = skeleton donor"
      using apply_params_keeps [OF ap] prepare_clone_ids [of sf "root d" "device_tag c" donor]
      by simp_all
    have root': "root d' = update_at (tp @ vp) (el_insert_at ?k new_device) (root d)"
      using d' by simp
    have "mset (id_values (root d')) + mset (id_values devices_el) =
        mset (id_values (root d)) + mset (id_values (el_insert_at ?k new_device devices_el))"
      unfolding root' using sub_d by (rule mset_ids_update_at)
    then have "mset (id_values (root d')) + mset (id_values devices_el) =
        mset (id_values (root d)) + mset ?news + mset (id_values devices_el)"
      by (simp add: mset_ids_insert new(1))
    then have "mset (id_values (root d')) = mset (id_values (root d) @ ?news)"
      by simp
    then have "distinct (id_values (root d')) = distinct (id_values (root d) @ ?news)"
      by (rule mset_eq_imp_distinct_iff)
    moreover have "distinct ?news"
      using find_max_id_nonneg [of "root d"] by (intro distinct_new_ids) simp
    moreover have "set (id_values (root d)) \<inter> set ?news = {}"
    proof -
      have False if "v \<in> set (id_values (root d))" "v \<in> set ?news" for v
      proof -
        from that(2) obtain j where "v = str_int (find_max_id (root d) + 1 + int j)" by auto
        moreover have "find_max_id (root d) < find_max_id (root d) + 1 + int j" by simp
        ultimately show False using fresh_above_max [OF that(1)] by blast
      qed
      then show ?thesis by blast
    qed
    ultimately have "distinct (id_values (root d'))"
      using uniq by simp
    then show ?thesis
      using donor sub_d k root' new m by blast
  qed
qed

theorem add_device_ids_unique_witness:
  "distinct (id_values (root ex_doc)) \<and>
   (case apply_change ex_repr ex_doc (ex_change\<lparr>target := ''add_device''\<rparr>) of
      Inl e \<Rightarrow> False
    | Inr (d', msgs) \<Rightarrow>
        distinct (id_values (root d')) \<and>
        id_values (root d') = [''1'', ''5'', ''6'', ''7'', ''8''])"
proof -
  let ?c = "ex_change\<lparr>target := ''add_device''\<rparr>"
  let ?R = "apply_change ex_repr ex_doc ?c"
  have u: "distinct (id_values (root ex_doc))" by code_simp
  have t: "target ?c = ''add_device''" by code_simp
  have "case ?R of Inl e \<Rightarrow> False
      | Inr (d', msgs) \<Rightarrow> id_values (root d') = [''1'', ''5'', ''6'', ''7'', ''8'']"
    by code_simp
  then obtain d' msgs where run: "?R = Inr (d', msgs)"
    and ids: "id_values (root d') = [''1'', ''5'', ''6'', ''7'', ''8'']"
    by (cases ?R) auto
  from add_device_ids_unique [OF u t run]
  have "distinct (id_values (root d'))" by (rule conjunct1)
  then show ?thesis using u ids unfolding run by simp
qed


subsection \<open>The branches by target\<close>

lemma apply_change_volume:
  "target c = ''volume'' \<Longrightarrow>
   apply_change sf d c =
     (case resolve_track d c of
        Raised e \<Rightarrow> Inl e
      | Failed msg \<Rightarrow> Inr (d, [msg])
      | Done (tp, track_el) \<Rightarrow> change_volume sf [] d tp track_el c)"
  unfolding apply_change_def by (simp split: res.split prod.split)

lemma apply_change_group_volume:
  "target c = ''group_volume'' \<Longrightarrow>
   apply_change sf d c =
     (case resolve_track d c of
        Raised e \<Rightarrow> Inl e
      | Failed msg \<Rightarrow> Inr (d, [msg])
      | Done (tp, track_el) \<Rightarrow> change_volume sf '' (group)'' d tp track_el c)"
  unfolding apply_change_def by (simp split: res.split prod.split)

lemma apply_change_pan:
  "target c = ''pan'' \<Longrightarrow>
   apply_change sf d c =
     (case resolve_track d c of
        Raised e \<Rightarrow> Inl e
      | Failed msg \<Rightarrow> Inr (d, [msg])
      | Done (tp, track_el) \<Rightarrow> change_pan sf d tp track_el c)"
  unfolding apply_change_def by (simp split: res.split prod.split)

lemma apply_change_send:
  "target c = ''send'' \<Longrightarrow>
   apply_change sf d c =
     (case resolve_track d c of
        Raised e \<Rightarrow> Inl e
      | Failed msg \<Rightarrow> Inr (d, [msg])
      | Done (tp, track_el) \<Rightarrow> change_send sf d tp track_el c)"
  unfolding apply_change_def by (simp split: res.split prod.split)

lemma subtree_update_at_sibling:
  assumes "subtree e P = Some s" and "j \<noteq> i"
  shows "subtree (update_at (P @ i # q) f e) (P @ [j]) = subtree e (P @ [j])"
proof -
  have "subtree (update_at (P @ i # q) f e) P = Some (update_at (i # q) f s)"
    using assms(1) by (rule subtree_update_at_prefix)
  then show ?thesis using assms by (simp add: subtree_append)
qed

lemma py_nth_enumerate:
  "0 \<le> i \<Longrightarrow> i < int (length xs) \<Longrightarrow> py_nth (enumerate 0 xs) i = Inr (nat i, xs ! nat i)"
  unfolding py_nth_def by (simp add: nth_enumerate_eq)

text \<open>The branch \<^verbatim>\<open>send\<close> once the dB value is converted and the mixer is found.\<close>

lemma change_send_no_sends:
  "db_to_linear (val c) = Inr lin \<Longrightarrow> find_mixer track_el = Some (mp, mixer) \<Longrightarrow>
   find_path mixer [''Sends''] = None \<Longrightarrow> change_send sf d tp track_el c = Inr (d, [])"
  unfolding change_send_def by simp

lemma change_send_beyond:
  "db_to_linear (val c) = Inr lin \<Longrightarrow> find_mixer track_el = Some (mp, mixer) \<Longrightarrow>
   find_path mixer [''Sends''] = Some (sp, sends_el) \<Longrightarrow>
   int (length (children sends_el)) \<le> send_index c \<Longrightarrow>
   change_send sf d tp track_el c = Inr (d, [])"
  unfolding change_send_def Let_def by simp

lemma change_send_within:
  assumes "db_to_linear (val c) = Inr lin" and "find_mixer track_el = Some (mp, mixer)"
    and "find_path mixer [''Sends''] = Some (sp, sends_el)"
    and "0 \<le> send_index c" and "send_index c < int (length (children sends_el))"
  shows "change_send sf d tp track_el c =
     (case find_path (children sends_el ! nat (send_index c)) [''Send'', ''Manual''] of
        None \<Rightarrow> Inr (d, [])
      | Some (hp, send_manual) \<Rightarrow>
          (case py_float (el_get_or send_manual ''Value'' ''0.0003162277571'') of
             None \<Rightarrow> Inl ValueError
           | Some old_val \<Rightarrow>
               (case send_label (send_index c) of
                  Inl e \<Rightarrow> Inl e
                | Inr lab \<Rightarrow>
                    (case fmt_val True 1 (val c) of
                       Inl e \<Rightarrow> Inl e
                     | Inr new_db \<Rightarrow>
                         Inr (d\<lparr>root := update_at (tp @ mp @ sp @ [nat (send_index c)] @ hp)
                                        (el_set ''Value'' (sf lin)) (root d)\<rparr>,
                              [''  '' @ track_name c @ '': Send '' @ lab @ '' '' @
                               (if old_db_of old_val = PInf \<or> old_db_of old_val = NInf then ''-inf''
                                else fmt_f True 1 (old_db_of old_val)) @
                               '' '' @ arrow @ '' '' @ new_db @ '' dB''])))))"
proof -
  have nth: "py_nth (enumerate 0 (children sends_el)) (send_index c) =
      Inr (nat (send_index c), children sends_el ! nat (send_index c))"
    using assms(4,5) by (rule py_nth_enumerate)
  show ?thesis
    unfolding change_send_def Let_def
    using assms(1,2,3,5) nth
    by (simp split: option.split sum.split)
qed


end
